theory Spec2Isabelle
  imports Main "HOL-Library.AList" "HOL-Library.Sublist"
begin

section \<open>The NW.js automator of rpgm-nwjs-automator (nwjs\_automator.py)\<close>

text \<open>
  A shallow embedding of the class \<open>NWJSAutomator\<close> of \<open>src/nwjs_automator.py\<close>.
  Every method becomes a function over an explicit world (the file system and the
  log written by \<open>logger\<close>); an exception becomes the left injection of a sum.
  The host the script runs on (\<open>sys.platform\<close>, \<open>platform.machine()\<close>, the working
  directory, the JSON parser, the network and the faults of the operating system) is a
  record of parameters.
\<close>

subsection \<open>Strings\<close>

text \<open>Strings are lists of 8-bit characters; \<open>str.lower\<close> is modelled on ASCII.\<close>

definition char_lower :: "char \<Rightarrow> char" where
  "char_lower c =
     (let n = (of_char c :: nat) in if 65 \<le> n \<and> n \<le> 90 then char_of (n + 32) else c)"

definition lower :: "string \<Rightarrow> string" where
  "lower s = map char_lower s"

text \<open>\<open>s.replace(a, b)\<close> for single characters \<open>a\<close> and \<open>b\<close>.\<close>

definition replace_char :: "char \<Rightarrow> char \<Rightarrow> string \<Rightarrow> string" where
  "replace_char a b s = map (\<lambda>c. if c = a then b else c) s"

definition startswith :: "string \<Rightarrow> string \<Rightarrow> bool" where
  "startswith s p = (take (length p) s = p)"

text \<open>\<open>sub in s\<close> on strings.\<close>

fun contains :: "string \<Rightarrow> string \<Rightarrow> bool" where
  "contains [] sub = (sub = [])"
| "contains (c # s) sub = (startswith (c # s) sub \<or> contains s sub)"

text \<open>\<open>dict.get(key, default)\<close> on a literal dictionary.\<close>

definition dict_get :: "('k \<times> 'v) list \<Rightarrow> 'k \<Rightarrow> 'v \<Rightarrow> 'v" where
  "dict_get d k dflt = (case map_of d k of Some v \<Rightarrow> v | None \<Rightarrow> dflt)"

subsection \<open>Paths (pathlib)\<close>

text \<open>
  A \<open>pathlib.Path\<close> is a list of name components, absolute or relative to the working
  directory. \<open>Path('.')\<close> and the root both have no component: their \<open>name\<close> is the
  empty string and their \<open>parent\<close> is the path itself. A component \<open>..\<close> is kept as
  pathlib keeps it, and the file system of this model reads it as a name like any
  other; symbolic links are outside the model.
\<close>

datatype pypath = Path (is_absolute: bool) (parts: "string list")

definition path_name :: "pypath \<Rightarrow> string" where
  "path_name p = (if parts p = [] then [] else last (parts p))"

definition path_parent :: "pypath \<Rightarrow> pypath" where
  "path_parent p = Path (is_absolute p) (butlast (parts p))"

definition joinpath :: "pypath \<Rightarrow> string \<Rightarrow> pypath" where
  "joinpath p n = Path (is_absolute p) (parts p @ [n])"

text \<open>
  \<open>joinpath p n\<close> is \<open>p / n\<close> for a name \<open>n\<close> that is one component: a literal of the
  source, the \<open>name\<close> of a path that \<open>iterdir\<close> listed, or a name built around the
  \<open>name\<close> of the game path. A text that the user supplies (the executable name, the
  version inside the archive's file name) goes through \<open>truediv\<close>, the operator \<open>/\<close> as
  pathlib parses its operand: the text is cut at each separator (the slash, on Windows
  the backslash too), empty pieces and pieces \<open>.\<close> vanish, and a text that begins with
  a separator replaces the path. Drive prefixes of Windows are outside the model.
\<close>

fun split_at :: "(char \<Rightarrow> bool) \<Rightarrow> string \<Rightarrow> string list" where
  "split_at sep [] = [[]]"
| "split_at sep (c # cs) =
     (if sep c then [] # split_at sep cs
      else (case split_at sep cs of x # xs \<Rightarrow> (c # x) # xs | [] \<Rightarrow> [[c]]))"

definition is_sep :: "bool \<Rightarrow> char \<Rightarrow> bool" where
  "is_sep windows c = (c = CHR ''/'' \<or> (windows \<and> c = CHR 0x5C))"

definition str_parts :: "bool \<Rightarrow> string \<Rightarrow> string list" where
  "str_parts windows s = [x \<leftarrow> split_at (is_sep windows) s. x \<noteq> [] \<and> x \<noteq> ''.'']"

definition truediv :: "bool \<Rightarrow> pypath \<Rightarrow> string \<Rightarrow> pypath" where
  "truediv windows p s =
     (if s \<noteq> [] \<and> is_sep windows (hd s) then Path True (str_parts windows s)
      else Path (is_absolute p) (parts p @ str_parts windows s))"

subsection \<open>The host and the automator object\<close>

datatype json =
    JNull
  | JBool bool
  | JInt int
  | JFloat string
  | JString string
  | JArray "json list"
  | JObject "(string \<times> json) list"

datatype node = File string | Dir

type_synonym fspath = "string list"

type_synonym filesystem = "(fspath \<times> node) list"

record host =
  sys_platform :: string
  machine :: string
  cwd :: fspath
  win32_available :: bool
  json_loads :: "string \<Rightarrow> json option"
  http_get :: "string \<Rightarrow> string option"
  unpack :: "string \<Rightarrow> (fspath \<times> node) list option"
  removal_denied :: "fspath \<Rightarrow> bool"
  rename_denied :: "fspath \<Rightarrow> bool"
  chmod_denied :: "fspath \<Rightarrow> bool"
  shortcut_denied :: bool

record automator =
  game_path :: pypath
  nwjs_path :: "pypath option"
  nwjs_version :: string
  use_sdk :: bool
  executable_name :: string
  nwjs_url_base :: string
  keep_files :: "string list"
  cleanup_files :: "string list"

text \<open>\<open>NWJSAutomator.__init__\<close>.\<close>

definition NWJSAutomator ::
  "pypath \<Rightarrow> pypath option \<Rightarrow> string \<Rightarrow> bool \<Rightarrow> string \<Rightarrow> automator" where
  "NWJSAutomator gp np ver sdk exe =
     \<lparr> game_path = gp, nwjs_path = np, nwjs_version = ver, use_sdk = sdk,
       executable_name = exe,
       nwjs_url_base = ''https://dl.nwjs.io'',
       keep_files = [''package.json'', ''www'', ''index.html''],
       cleanup_files =
         [''chromedriver'', ''chromedriver.exe'', ''nw_100_percent.pak'',
          ''nw_200_percent.pak'', ''ACKNOWLEDGEMENTS'', ''AUTHORS'', ''CHANGELOG.md'',
          ''LICENSE'', ''README.md'', ''credits.html'', ''payload'', ''debug.log'',
          ''pnacl'', ''notification_helper.exe'', ''chrome_100_percent.pak'',
          ''chrome_200_percent.pak''] \<rparr>"

subsection \<open>The Fetcher's URL: \<open>get_nwjs_download_url\<close>\<close>

definition arch_map :: "(string \<times> string) list" where
  "arch_map =
     [(''AMD64'', ''x64''), (''x86_64'', ''x64''), (''arm64'', ''arm64''),
      (''i386'', ''ia32''), (''x86'', ''ia32'')]"

definition platform_map :: "(string \<times> string) list" where
  "platform_map = [(''win32'', ''win''), (''darwin'', ''osx''), (''linux'', ''linux'')]"

definition get_nwjs_download_url :: "host \<Rightarrow> automator \<Rightarrow> string \<times> string" where
  "get_nwjs_download_url h self =
     (let arch = dict_get arch_map (machine h) ''x64'';
          platform_name = dict_get platform_map (sys_platform h) ''win'';
          version = (if startswith (nwjs_version self) ''v'' then nwjs_version self
                     else ''v'' @ nwjs_version self);
          filename = (if use_sdk self
                      then ''nwjs-sdk-'' @ version @ ''-'' @ platform_name @ ''-'' @ arch
                      else ''nwjs-'' @ version @ ''-'' @ platform_name @ ''-'' @ arch);
          filename = (if platform_name = ''win'' then filename @ ''.zip''
                      else filename @ ''.tar.gz'')
      in (nwjs_url_base self @ ''/'' @ version @ ''/'' @ filename, filename))"

text \<open>
  The documented construction, in the specification's words: five recognised raw
  architecture values give three canonical tokens (anything else gives \<open>x64\<close>), three
  operating systems give three platform tokens (anything else gives \<open>win\<close>), the
  version carries a leading \<open>v\<close>, and the extension follows the platform token.
\<close>

definition spec_arch_token :: "string \<Rightarrow> string" where
  "spec_arch_token raw =
     (if raw = ''AMD64'' \<or> raw = ''x86_64'' then ''x64''
      else if raw = ''arm64'' then ''arm64''
      else if raw = ''i386'' \<or> raw = ''x86'' then ''ia32''
      else ''x64'')"

definition spec_platform_token :: "string \<Rightarrow> string" where
  "spec_platform_token os =
     (if os = ''win32'' then ''win'' else if os = ''darwin'' then ''osx''
      else if os = ''linux'' then ''linux'' else ''win'')"

definition spec_version :: "string \<Rightarrow> string" where
  "spec_version v = (if v \<noteq> [] \<and> hd v = CHR ''v'' then v else CHR ''v'' # v)"

definition spec_extension :: "string \<Rightarrow> string" where
  "spec_extension token = (if token = ''win'' then ''.zip'' else ''.tar.gz'')"

definition spec_filename :: "bool \<Rightarrow> string \<Rightarrow> string \<Rightarrow> string \<Rightarrow> string" where
  "spec_filename sdk v token arch =
     (if sdk then ''nwjs-sdk-'' else ''nwjs-'') @ v @ ''-'' @ token @ ''-'' @ arch
       @ spec_extension token"

subsection \<open>JSON documents (the \<open>json\<close> module)\<close>

text \<open>
  \<open>json.load\<close> is the host's parser \<open>json_loads\<close>. A float is kept as the text that
  \<open>repr\<close> gives it. \<open>json.dump(data, f, indent=2, ensure_ascii=False)\<close> is
  \<open>json_dumps 0\<close>: one member per line, two spaces per level, \<open>": "\<close> after a key.
\<close>

fun digits :: "nat \<Rightarrow> string" where
  "digits n =
     (if n < 10 then [char_of (48 + n)] else digits (n div 10) @ [char_of (48 + n mod 10)])"

definition str_int :: "int \<Rightarrow> string" where
  "str_int i = (if i < 0 then ''-'' @ digits (nat (- i)) else digits (nat i))"

definition hex_digit :: "nat \<Rightarrow> char" where
  "hex_digit n = (if n < 10 then char_of (48 + n) else char_of (87 + n))"

definition json_escape_char :: "char \<Rightarrow> string" where
  "json_escape_char c =
     (let n = (of_char c :: nat) in
      if n = 34 then [CHR 0x5C, CHR 0x22]
      else if n = 92 then [CHR 0x5C, CHR 0x5C]
      else if n = 10 then [CHR 0x5C, CHR ''n'']
      else if n = 13 then [CHR 0x5C, CHR ''r'']
      else if n = 9 then [CHR 0x5C, CHR ''t'']
      else if n = 8 then [CHR 0x5C, CHR ''b'']
      else if n = 12 then [CHR 0x5C, CHR ''f'']
      else if n < 32 then [CHR 0x5C, CHR ''u'', CHR ''0'', CHR ''0'',
                           hex_digit (n div 16), hex_digit (n mod 16)]
      else [c])"

definition json_quote :: "string \<Rightarrow> string" where
  "json_quote s = [CHR 0x22] @ concat (map json_escape_char s) @ [CHR 0x22]"

definition newline_indent :: "nat \<Rightarrow> string" where
  "newline_indent l = CHR 0x0A # replicate (2 * l) CHR '' ''"

fun intercalate :: "'a list \<Rightarrow> 'a list list \<Rightarrow> 'a list" where
  "intercalate sep [] = []"
| "intercalate sep [x] = x"
| "intercalate sep (x # y # ys) = x @ sep @ intercalate sep (y # ys)"

fun json_dumps :: "nat \<Rightarrow> json \<Rightarrow> string" where
  "json_dumps l JNull = ''null''"
| "json_dumps l (JBool b) = (if b then ''true'' else ''false'')"
| "json_dumps l (JInt i) = str_int i"
| "json_dumps l (JFloat r) = r"
| "json_dumps l (JString s) = json_quote s"
| "json_dumps l (JArray xs) =
     (if xs = [] then ''[]''
      else ''['' @ newline_indent (Suc l)
           @ intercalate ('','' @ newline_indent (Suc l)) (map (json_dumps (Suc l)) xs)
           @ newline_indent l @ '']'')"
| "json_dumps l (JObject kvs) =
     (if kvs = [] then ''{}''
      else ''{'' @ newline_indent (Suc l)
           @ intercalate ('','' @ newline_indent (Suc l))
               (map (\<lambda>(k, v). json_quote k @ '': '' @ json_dumps (Suc l) v) kvs)
           @ newline_indent l @ ''}'')"

text \<open>Python's truth value of a parsed JSON value (\<open>not package_data['name']\<close>).\<close>

fun truthy :: "json \<Rightarrow> bool" where
  "truthy JNull = False"
| "truthy (JBool b) = b"
| "truthy (JInt i) = (i \<noteq> 0)"
| "truthy (JFloat r) = (r \<noteq> ''0.0'' \<and> r \<noteq> ''-0.0'')"
| "truthy (JString s) = (s \<noteq> [])"
| "truthy (JArray xs) = (xs \<noteq> [])"
| "truthy (JObject kvs) = (kvs \<noteq> [])"

subsection \<open>The file system\<close>

text \<open>
  The file system is an association list from resolved paths to nodes; the order of the
  list is the order in which a directory lists its entries. The root always exists.
  Permissions are not part of a node: the host says which paths cannot be removed or
  renamed and where a change of mode is refused. Names are compared as they are
  written (a case-sensitive file system). An operation of \<open>shutil\<close> that fails leaves the file system as it was (the
  partial work of a failed \<open>copytree\<close> or \<open>rmtree\<close> is not modelled), and a copy reads
  its source as it was before the call.
\<close>

datatype exn =
    FileNotFoundError string
  | FileExistsError string
  | IsADirectoryError string
  | NotADirectoryError string
  | PermissionError string
  | ValueError string
  | TypeError string
  | RequestException string
  | ShutilError string
  | BadArchive string

definition lookup :: "filesystem \<Rightarrow> fspath \<Rightarrow> node option" where
  "lookup f p = (if p = [] then Some Dir else map_of f p)"

definition fs_exists :: "filesystem \<Rightarrow> fspath \<Rightarrow> bool" where
  "fs_exists f p = (lookup f p \<noteq> None)"

definition fs_is_dir :: "filesystem \<Rightarrow> fspath \<Rightarrow> bool" where
  "fs_is_dir f p = (lookup f p = Some Dir)"

definition fs_is_file :: "filesystem \<Rightarrow> fspath \<Rightarrow> bool" where
  "fs_is_file f p = (case lookup f p of Some (File c) \<Rightarrow> True | _ \<Rightarrow> False)"

definition children :: "filesystem \<Rightarrow> fspath \<Rightarrow> fspath list" where
  "children f d = remdups [p \<leftarrow> map fst f. p \<noteq> [] \<and> butlast p = d]"

definition below :: "filesystem \<Rightarrow> fspath \<Rightarrow> filesystem" where
  "below f d = [e \<leftarrow> f. strict_prefix d (fst e)]"

definition relocate :: "fspath \<Rightarrow> fspath \<Rightarrow> filesystem \<Rightarrow> filesystem" where
  "relocate src dst es = map (\<lambda>(p, v). (dst @ drop (length src) p, v)) es"

definition same_kind :: "node \<Rightarrow> node \<Rightarrow> bool" where
  "same_kind a b = ((a = Dir) = (b = Dir))"

definition kind_conflict :: "filesystem \<Rightarrow> filesystem \<Rightarrow> bool" where
  "kind_conflict f es =
     list_ex (\<lambda>(p, v). case lookup f p of Some v' \<Rightarrow> \<not> same_kind v v' | None \<Rightarrow> False) es"

definition fs_write :: "fspath \<Rightarrow> string \<Rightarrow> filesystem \<Rightarrow> exn + filesystem" where
  "fs_write p c f =
     (if p = [] \<or> fs_is_dir f p then Inl (IsADirectoryError ''open'')
      else if \<not> fs_is_dir f (butlast p) then Inl (FileNotFoundError ''open'')
      else Inr (AList.update p (File c) f))"

definition fs_read :: "fspath \<Rightarrow> filesystem \<Rightarrow> exn + string" where
  "fs_read p f =
     (case lookup f p of
        None \<Rightarrow> Inl (FileNotFoundError ''open'')
      | Some Dir \<Rightarrow> Inl (IsADirectoryError ''open'')
      | Some (File c) \<Rightarrow> Inr c)"

definition fs_mkdir_exist_ok :: "fspath \<Rightarrow> filesystem \<Rightarrow> exn + filesystem" where
  "fs_mkdir_exist_ok p f =
     (if fs_is_dir f p then Inr f
      else if fs_exists f p then Inl (FileExistsError ''mkdir'')
      else if \<not> fs_is_dir f (butlast p) then Inl (FileNotFoundError ''mkdir'')
      else Inr (AList.update p Dir f))"

definition fs_unlink :: "(fspath \<Rightarrow> bool) \<Rightarrow> fspath \<Rightarrow> filesystem \<Rightarrow> exn + filesystem" where
  "fs_unlink denied p f =
     (case lookup f p of
        None \<Rightarrow> Inl (FileNotFoundError ''unlink'')
      | Some Dir \<Rightarrow> Inl (IsADirectoryError ''unlink'')
      | Some (File c) \<Rightarrow>
          if denied p then Inl (PermissionError ''unlink'') else Inr (AList.delete p f))"

definition fs_rmtree :: "(fspath \<Rightarrow> bool) \<Rightarrow> fspath \<Rightarrow> filesystem \<Rightarrow> exn + filesystem" where
  "fs_rmtree denied d f =
     (case lookup f d of
        None \<Rightarrow> Inl (FileNotFoundError ''rmtree'')
      | Some (File c) \<Rightarrow> Inl (NotADirectoryError ''rmtree'')
      | Some Dir \<Rightarrow>
          if denied d \<or> list_ex (\<lambda>e. prefix d (fst e) \<and> denied (fst e)) f
          then Inl (PermissionError ''rmtree'')
          else Inr [e \<leftarrow> f. \<not> prefix d (fst e)])"

definition fs_copy2 :: "fspath \<Rightarrow> fspath \<Rightarrow> filesystem \<Rightarrow> exn + filesystem" where
  "fs_copy2 src dst f =
     (case fs_read src f of
        Inl e \<Rightarrow> Inl e
      | Inr c \<Rightarrow> if src = [] then Inl (IsADirectoryError ''copy2'')
                 else fs_write (if fs_is_dir f dst then dst @ [last src] else dst) c f)"

definition fs_copytree :: "bool \<Rightarrow> fspath \<Rightarrow> fspath \<Rightarrow> filesystem \<Rightarrow> exn + filesystem" where
  "fs_copytree dirs_exist_ok src dst f =
     (case lookup f src of
        None \<Rightarrow> Inl (FileNotFoundError ''copytree'')
      | Some (File c) \<Rightarrow> Inl (NotADirectoryError ''copytree'')
      | Some Dir \<Rightarrow>
          if dst = [] \<or> (fs_exists f dst \<and> \<not> (dirs_exist_ok \<and> fs_is_dir f dst))
          then Inl (FileExistsError ''copytree'')
          else if \<not> fs_is_dir f (butlast dst) then Inl (FileNotFoundError ''copytree'')
          else if kind_conflict f (relocate src dst (below f src))
          then Inl (ShutilError ''copytree'')
          else Inr (AList.merge f ((dst, Dir) # relocate src dst (below f src))))"

definition fs_rename ::
  "(fspath \<Rightarrow> bool) \<Rightarrow> bool \<Rightarrow> fspath \<Rightarrow> fspath \<Rightarrow> filesystem \<Rightarrow> exn + filesystem" where
  "fs_rename denied windows src dst f =
     (if src = [] \<or> \<not> fs_exists f src then Inl (FileNotFoundError ''rename'')
      else if denied src then Inl (PermissionError ''rename'')
      else if prefix src dst \<or> dst = [] then Inl (PermissionError ''rename'')
      else if \<not> fs_is_dir f (butlast dst) then Inl (FileNotFoundError ''rename'')
      else if fs_exists f dst \<and> (windows \<or> \<not> (fs_is_file f src \<and> fs_is_file f dst))
      then Inl (FileExistsError ''rename'')
      else Inr (AList.merge [e \<leftarrow> f. \<not> prefix src (fst e)]
                  (relocate src dst [e \<leftarrow> f. prefix src (fst e)])))"

subsection \<open>The world: the file system and the log\<close>

text \<open>
  A record of the log is the level, the format text of the message as the source writes
  it (without its decorative marks, \<open>{}\<close> where a value is inserted) and the inserted
  values.
\<close>

datatype level = INFO | WARNING | ERROR

datatype arg = AStr string | APath pypath | AExn exn | ANat nat | AStrs "string list"

datatype message = Msg level string "arg list"

record world =
  fs :: filesystem
  log :: "message list"

type_synonym 'a action = "world \<Rightarrow> (exn + 'a) \<times> world"

definition ok :: "'a \<Rightarrow> 'a action" where
  "ok x w = (Inr x, w)"

definition raise :: "exn \<Rightarrow> 'a action" where
  "raise e w = (Inl e, w)"

definition andthen :: "'a action \<Rightarrow> ('a \<Rightarrow> 'b action) \<Rightarrow> 'b action" where
  "andthen m k w = (case m w of (Inl e, w') \<Rightarrow> (Inl e, w') | (Inr x, w') \<Rightarrow> k x w')"

definition try_except :: "'a action \<Rightarrow> (exn \<Rightarrow> 'a action) \<Rightarrow> 'a action" where
  "try_except m handler w =
     (case m w of (Inl e, w') \<Rightarrow> handler e w' | (Inr x, w') \<Rightarrow> (Inr x, w'))"

definition gets :: "(world \<Rightarrow> 'a) \<Rightarrow> 'a action" where
  "gets g w = (Inr (g w), w)"

definition if_then :: "(world \<Rightarrow> bool) \<Rightarrow> unit action \<Rightarrow> unit action" where
  "if_then c m w = (if c w then m w else (Inr (), w))"

definition logged :: "level \<Rightarrow> string \<Rightarrow> arg list \<Rightarrow> world \<Rightarrow> world" where
  "logged lvl fmt args w = w\<lparr>log := log w @ [Msg lvl fmt args]\<rparr>"

definition logger :: "level \<Rightarrow> string \<Rightarrow> arg list \<Rightarrow> unit action" where
  "logger lvl fmt args w = (Inr (), logged lvl fmt args w)"

definition fs_op :: "(filesystem \<Rightarrow> exn + filesystem) \<Rightarrow> unit action" where
  "fs_op g w = (case g (fs w) of Inl e \<Rightarrow> (Inl e, w) | Inr f' \<Rightarrow> (Inr (), w\<lparr>fs := f'\<rparr>))"

subsection \<open>\<open>pathlib\<close> and \<open>shutil\<close> on the world\<close>

definition resolve :: "host \<Rightarrow> pypath \<Rightarrow> fspath" where
  "resolve h p = (if is_absolute p then parts p else cwd h @ parts p)"

definition path_exists :: "host \<Rightarrow> pypath \<Rightarrow> world \<Rightarrow> bool" where
  "path_exists h p w = fs_exists (fs w) (resolve h p)"

definition path_is_dir :: "host \<Rightarrow> pypath \<Rightarrow> world \<Rightarrow> bool" where
  "path_is_dir h p w = fs_is_dir (fs w) (resolve h p)"

definition path_is_file :: "host \<Rightarrow> pypath \<Rightarrow> world \<Rightarrow> bool" where
  "path_is_file h p w = fs_is_file (fs w) (resolve h p)"

definition iterdir :: "host \<Rightarrow> pypath \<Rightarrow> pypath list action" where
  "iterdir h d w =
     (if fs_is_dir (fs w) (resolve h d)
      then (Inr (map (\<lambda>c. joinpath d (last c)) (children (fs w) (resolve h d))), w)
      else (Inl (FileNotFoundError ''iterdir''), w))"

definition write_text :: "host \<Rightarrow> pypath \<Rightarrow> string \<Rightarrow> unit action" where
  "write_text h p c = fs_op (fs_write (resolve h p) c)"

definition mkdir_exist_ok :: "host \<Rightarrow> pypath \<Rightarrow> unit action" where
  "mkdir_exist_ok h p = fs_op (fs_mkdir_exist_ok (resolve h p))"

definition unlink :: "host \<Rightarrow> pypath \<Rightarrow> unit action" where
  "unlink h p = fs_op (fs_unlink (removal_denied h) (resolve h p))"

definition rmtree :: "host \<Rightarrow> pypath \<Rightarrow> unit action" where
  "rmtree h p = fs_op (fs_rmtree (removal_denied h) (resolve h p))"

definition copy2 :: "host \<Rightarrow> pypath \<Rightarrow> pypath \<Rightarrow> unit action" where
  "copy2 h src dst = fs_op (fs_copy2 (resolve h src) (resolve h dst))"

definition copytree :: "host \<Rightarrow> bool \<Rightarrow> pypath \<Rightarrow> pypath \<Rightarrow> unit action" where
  "copytree h dirs_exist_ok src dst =
     fs_op (fs_copytree dirs_exist_ok (resolve h src) (resolve h dst))"

definition rename :: "host \<Rightarrow> pypath \<Rightarrow> pypath \<Rightarrow> unit action" where
  "rename h src dst =
     fs_op (fs_rename (rename_denied h) (sys_platform h = ''win32'') (resolve h src)
              (resolve h dst))"

text \<open>\<open>Path.chmod\<close>: it changes no node of the model; it raises when the path does not
  exist and where the host refuses it.\<close>

definition chmod :: "host \<Rightarrow> pypath \<Rightarrow> unit action" where
  "chmod h p w =
     (if \<not> fs_exists (fs w) (resolve h p) then (Inl (FileNotFoundError ''chmod''), w)
      else if chmod_denied h (resolve h p) then (Inl (PermissionError ''chmod''), w)
      else (Inr (), w))"

text \<open>\<open>Path.suffix\<close>: the text from the last dot of the name, when that dot is neither
  the first nor the last character.\<close>

definition path_suffix :: "pypath \<Rightarrow> string" where
  "path_suffix p =
     (let n = path_name p; ext = rev (takeWhile (\<lambda>c. c \<noteq> CHR ''.'') (rev n))
      in if CHR ''.'' \<in> set n \<and> ext \<noteq> [] \<and> Suc (length ext) < length n
         then CHR ''.'' # ext else [])"

text \<open>\<open>ZipFile.extractall\<close> and \<open>TarFile.extractall\<close>: the host's \<open>unpack\<close> reads the
  archive's members, as paths relative to the destination.\<close>

definition extractall :: "host \<Rightarrow> pypath \<Rightarrow> pypath \<Rightarrow> unit action" where
  "extractall h archive_path extract_dir w =
     (case fs_read (resolve h archive_path) (fs w) of
        Inl e \<Rightarrow> (Inl e, w)
      | Inr bytes \<Rightarrow>
          (case unpack h bytes of
             None \<Rightarrow> (Inl (BadArchive ''extractall''), w)
           | Some members \<Rightarrow>
               if \<not> fs_is_dir (fs w) (resolve h extract_dir)
               then (Inl (FileNotFoundError ''extractall''), w)
               else (Inr (), w\<lparr>fs := AList.merge (fs w)
                       (relocate [] (resolve h extract_dir) [e \<leftarrow> members. fst e \<noteq> []])\<rparr>)))"

subsection \<open>The Validator\<close>

definition name_missing :: "(string \<times> json) list \<Rightarrow> bool" where
  "name_missing kvs = (case map_of kvs ''name'' of None \<Rightarrow> True | Some v \<Rightarrow> \<not> truthy v)"

text \<open>The \<open>try\<close> that opens the manifest and parses it: a file that cannot be read and a
  text that is not JSON both become a \<open>ValueError\<close>.\<close>

definition load_json :: "host \<Rightarrow> pypath \<Rightarrow> json action" where
  "load_json h package_json_path w =
     (case fs_read (resolve h package_json_path) (fs w) of
        Inl e \<Rightarrow> (Inl (ValueError ''Could not read package.json''), w)
      | Inr text \<Rightarrow>
          (case json_loads h text of
             None \<Rightarrow> (Inl (ValueError ''Invalid JSON in package.json''), w)
           | Some package_data \<Rightarrow> (Inr package_data, w)))"

definition validate_and_fix_package_json :: "host \<Rightarrow> automator \<Rightarrow> pypath \<Rightarrow> unit action" where
  "validate_and_fix_package_json h self package_json_path =
     andthen (logger INFO ''Validating package.json...'' []) (\<lambda>_.
     andthen (load_json h package_json_path) (\<lambda>package_data.
     case package_data of
       JObject kvs \<Rightarrow>
         if name_missing kvs
         then (let game_name = lower (replace_char CHR '' '' CHR ''-'' (path_name (game_path self)))
               in andthen (logger INFO ''  Fixed: Added missing name field: {}'' [AStr game_name]) (\<lambda>_.
                  try_except
                    (andthen (write_text h package_json_path
                                (json_dumps 0 (JObject (AList.update ''name'' (JString game_name) kvs))))
                       (\<lambda>_. logger INFO ''package.json fixes saved'' []))
                    (\<lambda>e. andthen (logger ERROR ''Could not save package.json fixes: {}'' [AExn e]) (\<lambda>_. raise e))))
         else ok ()
     | _ \<Rightarrow> raise (TypeError ''package_data is not a dict'')))"

definition validate_game_directory :: "host \<Rightarrow> automator \<Rightarrow> unit action" where
  "validate_game_directory h self =
     (\<lambda>w. if \<not> path_exists h (game_path self) w
           then (Inl (FileNotFoundError ''Game directory not found''), w)
           else if \<not> path_exists h (joinpath (game_path self) ''package.json'') w
           then (Inl (FileNotFoundError ''package.json not found''), w)
           else if \<not> path_exists h (joinpath (game_path self) ''www'') w
           then (Inl (FileNotFoundError ''www folder not found''), w)
           else andthen
                  (try_except
                     (validate_and_fix_package_json h self
                        (joinpath (game_path self) ''package.json''))
                     (\<lambda>e. andthen (logger ERROR ''Failed to validate/fix package.json: {}'' [AExn e]) (\<lambda>_. raise e)))
                  (\<lambda>_. logger INFO ''Valid RPG Maker MV game found at: {}'' [APath (game_path self)]) w)"

subsection \<open>The Fetcher and the Extractor\<close>

definition download_nwjs :: "host \<Rightarrow> automator \<Rightarrow> pypath \<Rightarrow> pypath action" where
  "download_nwjs h self output_dir =
     (let url = fst (get_nwjs_download_url h self);
          filename = snd (get_nwjs_download_url h self);
          output_path = truediv (sys_platform h = ''win32'') output_dir filename
      in andthen (logger INFO ''Downloading NW.js from: {}'' [AStr url]) (\<lambda>_.
         case http_get h url of
           None \<Rightarrow> andthen (logger ERROR ''Failed to download NW.js: {}'' [AExn (RequestException url)])
                     (\<lambda>_. raise (RequestException url))
         | Some body \<Rightarrow>
             andthen (write_text h output_path body) (\<lambda>_.
             andthen (logger INFO ''Downloaded: {}'' [APath output_path]) (\<lambda>_. ok output_path))))"

definition extract_nwjs :: "host \<Rightarrow> automator \<Rightarrow> pypath \<Rightarrow> pypath \<Rightarrow> pypath action" where
  "extract_nwjs h self archive_path extract_dir =
     andthen (logger INFO ''Extracting NW.js archive: {}'' [APath archive_path]) (\<lambda>_.
     andthen (if path_suffix archive_path = ''.zip'' \<or> path_suffix archive_path = ''.gz''
              then extractall h archive_path extract_dir else ok ()) (\<lambda>_.
     andthen (iterdir h extract_dir) (\<lambda>items.
     andthen (gets (\<lambda>w. find (\<lambda>item. path_is_dir h item w
                                  \<and> contains (lower (path_name item)) ''nwjs'') items)) (\<lambda>found.
     case found of
       Some item \<Rightarrow> andthen (logger INFO ''NW.js extracted to: {}'' [APath item]) (\<lambda>_. ok item)
     | None \<Rightarrow> raise (FileNotFoundError ''Could not find extracted NW.js directory'')))))"

definition setup_nwjs :: "host \<Rightarrow> automator \<Rightarrow> pypath action" where
  "setup_nwjs h self =
     (\<lambda>w. case (case nwjs_path self of
                   Some np \<Rightarrow> if path_exists h np w then Some np else None
                 | None \<Rightarrow> None) of
             Some np \<Rightarrow> andthen (logger INFO ''Using existing NW.js: {}'' [APath np]) (\<lambda>_. ok np) w
           | None \<Rightarrow>
               (let temp_dir = Path True (cwd h @ [''temp_nwjs''])
                in andthen (mkdir_exist_ok h temp_dir) (\<lambda>_.
                   try_except
                     (andthen (download_nwjs h self temp_dir) (\<lambda>archive_path.
                      andthen (extract_nwjs h self archive_path temp_dir) (\<lambda>nwjs_dir.
                      andthen (logger INFO ''NW.js setup complete: {}'' [APath nwjs_dir]) (\<lambda>_. ok nwjs_dir))))
                     (\<lambda>e. andthen (logger ERROR ''Failed to setup NW.js: {}'' [AExn e]) (\<lambda>_. raise e)))) w)"

subsection \<open>Backup, Preserver and Wiper\<close>

definition backup_path :: "automator \<Rightarrow> pypath" where
  "backup_path self =
     joinpath (path_parent (game_path self)) (path_name (game_path self) @ ''_backup'')"

definition backup_game :: "host \<Rightarrow> automator \<Rightarrow> pypath action" where
  "backup_game h self =
     (\<lambda>w. if path_exists h (backup_path self) w
           then andthen (logger INFO ''Backup already exists: {}'' [APath (backup_path self)])
                  (\<lambda>_. ok (backup_path self)) w
           else andthen (logger INFO ''Creating backup: {}'' [APath (backup_path self)]) (\<lambda>_.
                andthen (copytree h False (game_path self) (backup_path self)) (\<lambda>_.
                andthen (logger INFO ''Backup created successfully'' []) (\<lambda>_.
                ok (backup_path self)))) w)"

definition holding_area :: "automator \<Rightarrow> pypath" where
  "holding_area self =
     joinpath (path_parent (game_path self)) (''temp_'' @ path_name (game_path self) @ ''_files'')"

definition save_important_files :: "host \<Rightarrow> automator \<Rightarrow> pypath action" where
  "save_important_files h self =
     (let temp_dir = holding_area self;
          critical_files = [''package.json'', ''www''];
          package_json = joinpath (game_path self) ''package.json'';
          www_folder = joinpath (game_path self) ''www'';
          index_html = joinpath (game_path self) ''index.html''
      in andthen (logger INFO ''Saving important files (package.json, www folder, and index.html)...'' []) (\<lambda>_.
         andthen (mkdir_exist_ok h temp_dir) (\<lambda>_.
         andthen (if_then (path_exists h package_json)
                    (andthen (copy2 h package_json (joinpath temp_dir ''package.json''))
                       (\<lambda>_. logger INFO ''  Saved: package.json'' []))) (\<lambda>_.
         andthen (if_then (path_exists h www_folder)
                    (andthen (copytree h True www_folder (joinpath temp_dir ''www''))
                       (\<lambda>_. logger INFO ''  Saved: www folder'' []))) (\<lambda>_.
         andthen (\<lambda>w. if path_exists h index_html w
                       then andthen (copy2 h index_html (joinpath temp_dir ''index.html''))
                              (\<lambda>_. logger INFO ''  Saved: index.html'' []) w
                       else logger WARNING ''  index.html not found - this may cause issues!'' [] w) (\<lambda>_.
         andthen (gets (\<lambda>w. [file \<leftarrow> critical_files.
                                \<not> path_exists h (joinpath temp_dir file) w])) (\<lambda>missing_files.
         if missing_files \<noteq> []
         then andthen (logger ERROR ''Critical files not saved to temp directory: {}''
                         [AStrs missing_files]) (\<lambda>_.
              andthen (logger ERROR ''Aborting to prevent data loss!'' []) (\<lambda>_.
              raise (FileNotFoundError ''Failed to backup critical files'')))
         else andthen (logger INFO ''Important files saved to: {}'' [APath temp_dir]) (\<lambda>_.
              ok temp_dir))))))))"

fun clean_loop :: "host \<Rightarrow> pypath list \<Rightarrow> nat \<Rightarrow> world \<Rightarrow> nat \<times> world" where
  "clean_loop h [] removed_count w = (removed_count, w)"
| "clean_loop h (item # items) removed_count w =
     (case (if path_is_dir h item w then rmtree h item w else unlink h item w) of
        (Inr u, w') \<Rightarrow>
          clean_loop h items (Suc removed_count)
            (logged INFO ''  Removed: {}'' [AStr (path_name item)] w')
      | (Inl e, w') \<Rightarrow>
          clean_loop h items removed_count
            (logged WARNING ''  Could not remove {}: {}'' [AStr (path_name item), AExn e] w'))"

definition clean_game_directory :: "host \<Rightarrow> automator \<Rightarrow> unit action" where
  "clean_game_directory h self =
     andthen (logger INFO ''Cleaning game directory (deleting everything)...'' []) (\<lambda>_.
     andthen (iterdir h (game_path self)) (\<lambda>items.
     (\<lambda>w. case clean_loop h items 0 w of
             (removed_count, w') \<Rightarrow>
               logger INFO ''Removed {} items from game directory'' [ANat removed_count] w')))"

subsection \<open>Installer and Restorer\<close>

definition script_tag :: "string \<Rightarrow> string" where
  \<open>script_tag src = ''    <script type="text/javascript" src="'' @ src @ ''"></script>''\<close>

definition html_head_lines :: "string list" where
  \<open>html_head_lines =
     [''<!DOCTYPE html>\<newline>'',
      ''            <html>\<newline>'',
      ''            <head>\<newline>'',
      ''                <meta charset="UTF-8">\<newline>'',
      ''                <meta name="apple-mobile-web-app-capable" content="yes">\<newline>'',
      ''                <meta name="apple-mobile-web-app-status-bar-style" content="black-translucent">\<newline>'',
      ''                <meta name="viewport" content="user-scalable=no">\<newline>'',
      ''                <link rel="icon" href="icon/icon.png" type="image/png">\<newline>'',
      ''                <title>RPG Game</title>\<newline>'',
      ''                <style type="text/css">\<newline>'',
      ''                    body {\<newline>'',
      ''                        margin: 0;\<newline>'',
      ''                        padding: 0;\<newline>'',
      ''                    }\<newline>'',
      ''                    canvas {\<newline>'',
      ''                        cursor: default;\<newline>'',
      ''                    }\<newline>'',
      ''                </style>\<newline>'',
      ''            </head>\<newline>'',
      ''            <body style="background-color: black">\<newline>'',
      ''            '']\<close>

definition html_head :: string where
  "html_head = concat html_head_lines"

definition html_foot_lines :: "string list" where
  \<open>html_foot_lines =
     [''\<newline>'',
      ''            </body>\<newline>'',
      ''            </html>'']\<close>

definition html_foot :: string where
  "html_foot = concat html_foot_lines"

definition libs_order :: "string list" where
  "libs_order = [''pixi.js'', ''pixi-tilemap.js'', ''pixi-picture.js'', ''fpsmeter.js'',
                 ''lz-string.js'']"

definition core_order :: "string list" where
  "core_order = [''rpg_core.js'', ''rpg_managers.js'', ''rpg_objects.js'', ''rpg_scenes.js'',
                 ''rpg_sprites.js'', ''rpg_windows.js'']"

definition script_tags :: "host \<Rightarrow> automator \<Rightarrow> world \<Rightarrow> string list" where
  "script_tags h self w =
     (let js_dir = joinpath (joinpath (game_path self) ''www'') ''js'';
          libs_dir = joinpath js_dir ''libs'';
          found =
            (if path_exists h js_dir w
             then (if path_exists h libs_dir w
                   then [script_tag (''js/libs/'' @ lib_file). lib_file \<leftarrow> libs_order,
                           path_exists h (joinpath libs_dir lib_file) w]
                   else [])
                  @ [script_tag (''js/'' @ core_file). core_file \<leftarrow> core_order,
                       path_exists h (joinpath js_dir core_file) w]
                  @ [script_tag (''js/'' @ final_file). final_file \<leftarrow> [''plugins.js'', ''main.js''],
                       path_exists h (joinpath js_dir final_file) w]
             else [])
      in if found = [] then [script_tag ''js/main.js''] else found)"

definition basic_html :: "string list \<Rightarrow> string" where
  "basic_html tags = html_head @ intercalate [CHR 0x0A] tags @ html_foot"

text \<open>
  The source as it stands does not parse at two places. In \<open>create_basic_index_html\<close>
  the \<open>try\<close> that writes the document (lines 424 to 430) is indented one level deeper
  than the assignment of \<open>basic_html\<close> before it. The definition reads these lines at
  the indentation of that assignment, as the last statement of the method: the reading
  under which the method writes the document it has built. In \<open>copy_nwjs_to_game\<close> the
  \<open>try\<close> inside the loop (lines 442 to 453) has neither \<open>except\<close> nor \<open>finally\<close>. The
  definition reads the body of that \<open>try\<close> as the body of the loop, so that an exception
  of a copy ends the method and reaches the caller.
\<close>

definition create_basic_index_html :: "host \<Rightarrow> automator \<Rightarrow> unit action" where
  "create_basic_index_html h self =
     (\<lambda>w. try_except
             (andthen (write_text h (joinpath (game_path self) ''index.html'')
                         (basic_html (script_tags h self w)))
                (\<lambda>_. logger INFO ''  Created: basic index.html with detected JS files'' []))
             (\<lambda>e. andthen (logger ERROR ''Could not create basic index.html: {}'' [AExn e])
                      (\<lambda>_. raise e)) w)"

fun copy_loop :: "host \<Rightarrow> automator \<Rightarrow> pypath list \<Rightarrow> nat \<Rightarrow> nat action" where
  "copy_loop h self [] copied_count w = (Inr copied_count, w)"
| "copy_loop h self (item # items) copied_count w =
     (case (if path_is_dir h item w
            then copytree h True item (joinpath (game_path self) (path_name item)) w
            else andthen (copy2 h item (joinpath (game_path self) (path_name item))) (\<lambda>_.
                 if sys_platform h \<noteq> ''win32'' \<and> path_name item \<in> set [''nw'', ''nwjs'']
                 then chmod h (joinpath (game_path self) (path_name item)) else ok ()) w) of
        (Inl e, w') \<Rightarrow> (Inl e, w')
      | (Inr u, w') \<Rightarrow>
          copy_loop h self items (Suc copied_count)
            (logged INFO ''  Copied: {}'' [AStr (path_name item)] w'))"

definition copy_nwjs_to_game :: "host \<Rightarrow> automator \<Rightarrow> pypath \<Rightarrow> unit action" where
  "copy_nwjs_to_game h self nwjs_dir =
     andthen (logger INFO ''Copying NW.js runtime files from {} to {}...''
                [APath nwjs_dir, APath (game_path self)]) (\<lambda>_.
     andthen (iterdir h nwjs_dir) (\<lambda>items.
     andthen (copy_loop h self items 0) (\<lambda>copied_count.
     logger INFO ''Copied {} NW.js runtime files to game directory'' [ANat copied_count])))"

definition restore_important_files :: "host \<Rightarrow> automator \<Rightarrow> pypath \<Rightarrow> unit action" where
  "restore_important_files h self temp_dir =
     (let dest_package_json = joinpath (game_path self) ''package.json'';
          dest_www = joinpath (game_path self) ''www'';
          dest_index_html = joinpath (game_path self) ''index.html'';
          www_index_html = joinpath (joinpath (game_path self) ''www'') ''index.html''
      in andthen (logger INFO ''Restoring important files...'' []) (\<lambda>_.
         andthen (if_then (path_exists h (joinpath temp_dir ''package.json''))
                    (andthen (if_then (path_exists h dest_package_json) (unlink h dest_package_json)) (\<lambda>_.
                     andthen (copy2 h (joinpath temp_dir ''package.json'') dest_package_json) (\<lambda>_.
                     logger INFO ''  Restored: package.json'' [])))) (\<lambda>_.
         andthen (if_then (path_exists h (joinpath temp_dir ''www''))
                    (andthen (if_then (path_exists h dest_www) (rmtree h dest_www)) (\<lambda>_.
                     andthen (copytree h False (joinpath temp_dir ''www'') dest_www) (\<lambda>_.
                     logger INFO ''  Restored: www folder'' [])))) (\<lambda>_.
         andthen (\<lambda>w. if path_exists h (joinpath temp_dir ''index.html'') w
                       then andthen (if_then (path_exists h dest_index_html) (unlink h dest_index_html)) (\<lambda>_.
                            andthen (copy2 h (joinpath temp_dir ''index.html'') dest_index_html) (\<lambda>_.
                            logger INFO ''  Restored: index.html'' [])) w
                       else if path_exists h www_index_html w
                       then andthen (copy2 h www_index_html dest_index_html) (\<lambda>_.
                            logger INFO ''  Copied index.html from www folder to root'' []) w
                       else andthen (logger WARNING
                                       ''  index.html not found in backup, creating a basic one...'' []) (\<lambda>_.
                            create_basic_index_html h self) w) (\<lambda>_.
         andthen (if_then (path_exists h dest_package_json)
                    (validate_and_fix_package_json h self dest_package_json)) (\<lambda>_.
         try_except
           (andthen (rmtree h temp_dir) (\<lambda>_. logger INFO ''Cleaned up temporary files'' []))
           (\<lambda>e. logger WARNING ''Could not clean up temp directory: {}'' [AExn e])))))))"

subsection \<open>The Finalizer\<close>

definition possible_executables :: "host \<Rightarrow> string list" where
  "possible_executables h =
     (if sys_platform h = ''win32'' then [''nw.exe'', ''nwjs.exe'']
      else if sys_platform h = ''darwin'' then [''nwjs'', ''nw'']
      else [''nw'', ''nwjs''])"

definition game_exe_name :: "host \<Rightarrow> automator \<Rightarrow> string" where
  "game_exe_name h self =
     (if sys_platform h = ''win32'' then executable_name self @ ''.exe''
      else executable_name self)"

definition game_exe_path :: "host \<Rightarrow> automator \<Rightarrow> pypath" where
  "game_exe_path h self =
     truediv (sys_platform h = ''win32'') (game_path self) (game_exe_name h self)"

definition rename_executable :: "host \<Rightarrow> automator \<Rightarrow> pypath option action" where
  "rename_executable h self =
     andthen (logger INFO ''Renaming NW.js executable to {}...'' [AStr (executable_name self)]) (\<lambda>_.
     andthen (gets (\<lambda>w. find (\<lambda>exe_name. path_exists h (joinpath (game_path self) exe_name) w)
                           (possible_executables h))) (\<lambda>found.
     case found of
       None \<Rightarrow>
         andthen (logger ERROR ''NW.js executable not found. Looked for: {}''
                    [AStrs (possible_executables h)]) (\<lambda>_. ok None)
     | Some exe_name \<Rightarrow>
         (let nw_exe = joinpath (game_path self) exe_name;
              game_exe = game_exe_path h self
          in try_except
               (andthen (if_then (path_exists h game_exe) (unlink h game_exe)) (\<lambda>_.
                andthen (rename h nw_exe game_exe) (\<lambda>_.
                andthen (if sys_platform h \<noteq> ''win32'' then chmod h game_exe else ok ()) (\<lambda>_.
                andthen (logger INFO ''Renamed {} to {}''
                           [AStr (path_name nw_exe), AStr (path_name game_exe)]) (\<lambda>_.
                ok (Some game_exe))))))
               (\<lambda>e. andthen (logger ERROR ''Could not rename executable: {}'' [AExn e]) (\<lambda>_.
                     ok (Some nw_exe))))))"

fun cleanup_loop :: "host \<Rightarrow> automator \<Rightarrow> string list \<Rightarrow> nat \<Rightarrow> world \<Rightarrow> nat \<times> world" where
  "cleanup_loop h self [] removed_count w = (removed_count, w)"
| "cleanup_loop h self (file_name # rest) removed_count w =
     (if path_exists h (joinpath (game_path self) file_name) w
      then (case (if path_is_dir h (joinpath (game_path self) file_name) w
                  then rmtree h (joinpath (game_path self) file_name) w
                  else unlink h (joinpath (game_path self) file_name) w) of
              (Inr u, w') \<Rightarrow>
                cleanup_loop h self rest (Suc removed_count)
                  (logged INFO ''  Removed: {}'' [AStr file_name] w')
            | (Inl e, w') \<Rightarrow>
                cleanup_loop h self rest removed_count
                  (logged WARNING ''  Could not remove {}: {}'' [AStr file_name, AExn e] w'))
      else cleanup_loop h self rest removed_count w)"

fun locale_loop :: "host \<Rightarrow> pypath list \<Rightarrow> nat \<Rightarrow> world \<Rightarrow> exn option \<times> nat \<times> world" where
  "locale_loop h [] removed_count w = (None, removed_count, w)"
| "locale_loop h (locale_file # rest) removed_count w =
     (if path_name locale_file \<notin> set [''en-US.pak'', ''en-US.pak.info'']
         \<and> path_is_file h locale_file w
      then (case unlink h locale_file w of
              (Inl e, w') \<Rightarrow> (Some e, removed_count, w')
            | (Inr u, w') \<Rightarrow>
                locale_loop h rest (Suc removed_count)
                  (logged INFO ''  Removed: locales/{}'' [AStr (path_name locale_file)] w'))
      else locale_loop h rest removed_count w)"

definition clean_locales :: "host \<Rightarrow> automator \<Rightarrow> nat \<Rightarrow> world \<Rightarrow> nat \<times> world" where
  "clean_locales h self removed_count w =
     (let locales_dir = joinpath (game_path self) ''locales''
      in if path_exists h locales_dir w \<and> path_is_dir h locales_dir w
         then (case iterdir h locales_dir w of
                 (Inl e, w') \<Rightarrow>
                   (removed_count,
                    logged WARNING ''  Could not clean locales directory: {}'' [AExn e] w')
               | (Inr items, w') \<Rightarrow>
                   (case locale_loop h items removed_count w' of
                      (None, n, w'') \<Rightarrow> (n, w'')
                    | (Some e, n, w'') \<Rightarrow>
                        (n, logged WARNING ''  Could not clean locales directory: {}''
                              [AExn e] w'')))
         else (removed_count, w))"

definition cleanup_nwjs_files :: "host \<Rightarrow> automator \<Rightarrow> unit action" where
  "cleanup_nwjs_files h self w =
     (case cleanup_loop h self (cleanup_files self) 0
             (logged INFO ''Cleaning up unnecessary NW.js files...'' [] w) of
        (n1, w1) \<Rightarrow>
          (case clean_locales h self n1 w1 of
             (removed_count, w2) \<Rightarrow>
               if removed_count > 0
               then logger INFO ''Removed {} unnecessary files'' [ANat removed_count] w2
               else logger INFO ''No unnecessary files to remove'' [] w2))"

definition cleanup_temp_files :: "host \<Rightarrow> automator \<Rightarrow> unit action" where
  "cleanup_temp_files h self =
     if_then (path_exists h (Path True (cwd h @ [''temp_nwjs''])))
       (try_except
          (andthen (rmtree h (Path True (cwd h @ [''temp_nwjs'']))) (\<lambda>_.
           logger INFO ''Cleaned up temporary NW.js files'' []))
          (\<lambda>e. logger WARNING ''Could not clean up temporary files: {}'' [AExn e]))"

definition str_path :: "pypath \<Rightarrow> string" where
  "str_path p = (if is_absolute p then ''/'' else [])
                  @ (if parts p = [] \<and> \<not> is_absolute p then ''.'' else intercalate ''/'' (parts p))"

text \<open>The shortcut that \<open>WScript.Shell\<close> saves is a file that holds its target; the host
  says whether the COM calls fail.\<close>

definition create_shortcut_windows :: "host \<Rightarrow> automator \<Rightarrow> pypath \<Rightarrow> pypath option action" where
  "create_shortcut_windows h self game_exe =
     (if \<not> win32_available h then ok None
      else (let shortcut_path = truediv (sys_platform h = ''win32'') (game_path self)
                                  (executable_name self @ ''.lnk'')
            in try_except
                 (andthen (if shortcut_denied h then raise (PermissionError ''CreateShortcut'')
                           else write_text h shortcut_path (str_path game_exe)) (\<lambda>_.
                  andthen (logger INFO ''Created Windows shortcut: {}'' [APath shortcut_path]) (\<lambda>_.
                  ok (Some shortcut_path))))
                 (\<lambda>e. andthen (logger WARNING ''Could not create Windows shortcut: {}'' [AExn e])
                          (\<lambda>_. ok None))))"

subsection \<open>The pipeline: \<open>process_game\<close>\<close>

datatype outcome = Success pypath pypath | Failure exn

definition pipeline :: "host \<Rightarrow> automator \<Rightarrow> bool \<Rightarrow> pypath action" where
  "pipeline h self create_backup =
     andthen (validate_game_directory h self) (\<lambda>_.
     andthen (if create_backup then andthen (backup_game h self) (\<lambda>_. ok ()) else ok ()) (\<lambda>_.
     andthen (setup_nwjs h self) (\<lambda>nwjs_dir.
     andthen (save_important_files h self) (\<lambda>temp_dir.
     andthen (clean_game_directory h self) (\<lambda>_.
     andthen (copy_nwjs_to_game h self nwjs_dir) (\<lambda>_.
     andthen (restore_important_files h self temp_dir) (\<lambda>_.
     andthen (rename_executable h self) (\<lambda>game_exe.
     andthen (cleanup_nwjs_files h self) (\<lambda>_.
     case game_exe of
       None \<Rightarrow> raise (FileNotFoundError ''Could not create game executable'')
     | Some exe \<Rightarrow>
         andthen (if sys_platform h = ''win32''
                  then andthen (create_shortcut_windows h self exe) (\<lambda>_. ok ())
                  else ok ()) (\<lambda>_.
         andthen (cleanup_temp_files h self) (\<lambda>_.
         andthen (logger INFO ''NW.js update completed successfully!'' []) (\<lambda>_.
         andthen (logger INFO ''Launch the game using: {}'' [APath exe]) (\<lambda>_.
         andthen (logger INFO ''Type process.versions in the game console to check your new NW.js version!'' []) (\<lambda>_.
         ok exe))))))))))))))"

text \<open>\<open>process_game\<close>: the body of its \<open>try\<close> is \<open>pipeline\<close>; every exception becomes the
  failure result.\<close>

definition process_game :: "host \<Rightarrow> automator \<Rightarrow> bool \<Rightarrow> world \<Rightarrow> outcome \<times> world" where
  "process_game h self create_backup w =
     (case pipeline h self create_backup
             (logged INFO ''Starting NW.js update for: {}'' [APath (game_path self)] w) of
        (Inl e, w') \<Rightarrow> (Failure e, logged ERROR ''Update failed: {}'' [AExn e] w')
      | (Inr exe, w') \<Rightarrow> (Success exe (game_path self), w'))"

subsection \<open>Example worlds\<close>

text \<open>
  A Linux host whose working directory is \<open>/home/u\<close>. Its JSON parser is given on the
  three manifests the examples read: the empty object and the two documents that the
  Validator writes.
\<close>

definition demo_loads :: "string \<Rightarrow> json option" where
  "demo_loads t =
     (if t = ''{}'' then Some (JObject [])
      else if t = json_dumps 0 (JObject [(''name'', JString ''my-game'')])
      then Some (JObject [(''name'', JString ''my-game'')])
      else if t = json_dumps 0 (JObject [(''name'', JString [])])
      then Some (JObject [(''name'', JString [])])
      else None)"

definition demo_host :: host where
  "demo_host =
     \<lparr> sys_platform = ''linux'', machine = ''x86_64'', cwd = [''home'', ''u''],
       win32_available = False, json_loads = demo_loads, http_get = (\<lambda>url. None),
       unpack = (\<lambda>bytes. None), removal_denied = (\<lambda>p. False),
       rename_denied = (\<lambda>p. False), chmod_denied = (\<lambda>p. False),
       shortcut_denied = False \<rparr>"

definition demo_fs :: filesystem where
  "demo_fs =
     [([''home''], Dir), ([''home'', ''u''], Dir), ([''home'', ''u'', ''My Game''], Dir),
      ([''home'', ''u'', ''My Game'', ''package.json''], File ''{}''),
      ([''home'', ''u'', ''My Game'', ''www''], Dir),
      ([''home'', ''u'', ''My Game'', ''www'', ''data.json''], File ''d''),
      ([''home'', ''u'', ''My Game'', ''old.dll''], File ''x''),
      ([''home'', ''u'', ''nwjs''], Dir),
      ([''home'', ''u'', ''nwjs'', ''nw''], File ''ELF''),
      ([''home'', ''u'', ''nwjs'', ''debug.log''], File ''log'')]"

definition demo_self :: automator where
  "demo_self =
     NWJSAutomator (Path False [''My Game'']) (Some (Path False [''nwjs''])) ''v0.49.2'' True
       ''Game''"

definition demo_world :: world where
  "demo_world = \<lparr> fs = demo_fs, log = [] \<rparr>"

text \<open>The same game, with the tool started inside it as \<open>--game-path .\<close>\<close>

definition dot_host :: host where
  "dot_host = demo_host \<lparr> cwd := [''home'', ''u'', ''My Game''] \<rparr>"

definition dot_self :: automator where
  "dot_self =
     NWJSAutomator (Path False []) (Some (Path True [''home'', ''u'', ''nwjs''])) ''v0.49.2'' True
       ''Game''"

text \<open>The example world after one run of the Validator.\<close>

definition fixed_world :: world where
  "fixed_world = snd (validate_game_directory demo_host demo_self demo_world)"

text \<open>The example world with a backup left by an earlier run.\<close>

definition stale_backup_world :: world where
  "stale_backup_world =
     \<lparr> fs = demo_fs @ [([''home'', ''u'', ''My Game_backup''], Dir),
                       ([''home'', ''u'', ''My Game_backup'', ''old.txt''], File ''stale'')],
       log = [] \<rparr>"

text \<open>A restored game whose script folder holds \<open>plugins.js\<close> and \<open>main.js\<close> only.\<close>

definition scripts_world :: world where
  "scripts_world =
     \<lparr> fs = [([''home''], Dir), ([''home'', ''u''], Dir), ([''home'', ''u'', ''My Game''], Dir),
              ([''home'', ''u'', ''My Game'', ''www''], Dir),
              ([''home'', ''u'', ''My Game'', ''www'', ''js''], Dir),
              ([''home'', ''u'', ''My Game'', ''www'', ''js'', ''main.js''], File ''m''),
              ([''home'', ''u'', ''My Game'', ''www'', ''js'', ''plugins.js''], File ''p'')],
       log = [] \<rparr>"

text \<open>The number of places of a text at which a given word starts.\<close>

fun count_occurrences :: "string \<Rightarrow> string \<Rightarrow> nat" where
  "count_occurrences sub [] = 0"
| "count_occurrences sub (c # s) =
     (if startswith (c # s) sub then 1 else 0) + count_occurrences sub s"

subsection \<open>What the Wiper is measured against\<close>

text \<open>
  The outcome of removing one child as the Wiper does it (\<open>shutil.rmtree\<close> for a
  directory, \<open>unlink\<close> otherwise), tried on a given world, and the log record that the
  Wiper writes for that outcome.
\<close>

definition removal_result :: "host \<Rightarrow> world \<Rightarrow> pypath \<Rightarrow> exn + unit" where
  "removal_result h w item =
     fst (if path_is_dir h item w then rmtree h item w else unlink h item w)"

definition removal_succeeds :: "host \<Rightarrow> world \<Rightarrow> pypath \<Rightarrow> bool" where
  "removal_succeeds h w item = (case removal_result h w item of Inr u \<Rightarrow> True | Inl e \<Rightarrow> False)"

definition removal_record :: "host \<Rightarrow> world \<Rightarrow> pypath \<Rightarrow> message" where
  "removal_record h w item =
     (case removal_result h w item of
        Inr u \<Rightarrow> Msg INFO ''  Removed: {}'' [AStr (path_name item)]
      | Inl e \<Rightarrow> Msg WARNING ''  Could not remove {}: {}'' [AStr (path_name item), AExn e])"

text \<open>One removal, as the loops of the Wiper and of the cleanup try it.\<close>

definition remove_item :: "host \<Rightarrow> pypath \<Rightarrow> unit action" where
  "remove_item h item w = (if path_is_dir h item w then rmtree h item w else unlink h item w)"

text \<open>The children of the target directory, as \<open>iterdir\<close> lists them to the Wiper.\<close>

definition target_children :: "host \<Rightarrow> automator \<Rightarrow> world \<Rightarrow> pypath list" where
  "target_children h self w =
     map (\<lambda>c. joinpath (game_path self) (last c)) (children (fs w) (resolve h (game_path self)))"

definition incomparable :: "fspath \<Rightarrow> fspath \<Rightarrow> bool" where
  "incomparable a b = (\<not> prefix a b \<and> \<not> prefix b a)"

text \<open>A game directory with two ordinary files and one file that cannot be deleted.\<close>

definition locked_host :: host where
  "locked_host = demo_host \<lparr> removal_denied := (\<lambda>p. p = [''home'', ''u'', ''My Game'', ''locked.dat'']) \<rparr>"

definition locked_world :: world where
  "locked_world =
     \<lparr> fs = [([''home''], Dir), ([''home'', ''u''], Dir), ([''home'', ''u'', ''My Game''], Dir),
              ([''home'', ''u'', ''My Game'', ''a.txt''], File ''a''),
              ([''home'', ''u'', ''My Game'', ''locked.dat''], File ''l''),
              ([''home'', ''u'', ''My Game'', ''b.txt''], File ''b'')],
       log = [] \<rparr>"

text \<open>A game directory after the install: both runtime binaries and an old launcher.\<close>

definition installed_world :: world where
  "installed_world =
     \<lparr> fs = [([''home''], Dir), ([''home'', ''u''], Dir), ([''home'', ''u'', ''My Game''], Dir),
              ([''home'', ''u'', ''My Game'', ''nwjs''], File ''NWJS''),
              ([''home'', ''u'', ''My Game'', ''nw''], File ''NW''),
              ([''home'', ''u'', ''My Game'', ''Game''], File ''OLD'')],
       log = [] \<rparr>"


text \<open>The same automator, asked for the executable name \<open>nw\<close>, and a game directory
  after an install that brought the binary \<open>nwjs\<close> only.\<close>

definition nw_named_self :: automator where
  "nw_named_self = demo_self \<lparr> executable_name := ''nw'' \<rparr>"


subsection \<open>Relations between the world before and after a step\<close>

text \<open>
  \<open>preserves R m\<close>: whatever \<open>m\<close> returns, the world it leaves is related by \<open>R\<close> to the
  world it started from. The relations used: nothing that existed is gone (\<open>grows\<close>),
  the log is extended by records that satisfy a predicate (\<open>logs_only\<close>), and only
  paths at or below given roots are changed (\<open>only_under\<close>).
\<close>

definition preserves :: "(world \<Rightarrow> world \<Rightarrow> bool) \<Rightarrow> 'a action \<Rightarrow> bool" where
  "preserves R m = (\<forall>w. R w (snd (m w)))"

definition stable :: "(world \<Rightarrow> world \<Rightarrow> bool) \<Rightarrow> bool" where
  "stable R = ((\<forall>w. R w w) \<and> (\<forall>a b c. R a b \<longrightarrow> R b c \<longrightarrow> R a c))"

definition grows :: "world \<Rightarrow> world \<Rightarrow> bool" where
  "grows w w' = (\<forall>p. fs_exists (fs w) p \<longrightarrow> fs_exists (fs w') p)"

definition logs_only :: "(message \<Rightarrow> bool) \<Rightarrow> world \<Rightarrow> world \<Rightarrow> bool" where
  "logs_only P w w' = (\<exists>evs. log w' = log w @ evs \<and> list_all P evs)"


text \<open>
  Two records matter to the ordering of a run: the opening record of the Wiper and the
  error record of a refused rename. \<open>admits P\<close>: the predicate \<open>P\<close> holds of every record
  with any other format text.
\<close>

definition reserved_formats :: "string list" where
  "reserved_formats =
     [''Cleaning game directory (deleting everything)...'', ''Could not rename executable: {}'']"

definition admits :: "(message \<Rightarrow> bool) \<Rightarrow> bool" where
  "admits P = (\<forall>l f a. f \<notin> set reserved_formats \<longrightarrow> P (Msg l f a))"

subsection \<open>The run before and after the Preserver\<close>

text \<open>
  \<open>process_game\<close> is a straight sequence; these are its steps up to the Preserver
  (Validator, optional backup, Fetcher and Extractor) and its steps from the Wiper on.
\<close>

definition steps_before_preserver :: "host \<Rightarrow> automator \<Rightarrow> bool \<Rightarrow> pypath action" where
  "steps_before_preserver h self create_backup =
     andthen (validate_game_directory h self) (\<lambda>_.
     andthen (if create_backup then andthen (backup_game h self) (\<lambda>_. ok ()) else ok ()) (\<lambda>_.
     setup_nwjs h self))"

definition steps_after_wiper :: "host \<Rightarrow> automator \<Rightarrow> pypath \<Rightarrow> pypath \<Rightarrow> pypath action" where
  "steps_after_wiper h self nwjs_dir temp_dir =
     andthen (copy_nwjs_to_game h self nwjs_dir) (\<lambda>_.
     andthen (restore_important_files h self temp_dir) (\<lambda>_.
     andthen (rename_executable h self) (\<lambda>game_exe.
     andthen (cleanup_nwjs_files h self) (\<lambda>_.
     case game_exe of
       None \<Rightarrow> raise (FileNotFoundError ''Could not create game executable'')
     | Some exe \<Rightarrow>
         andthen (if sys_platform h = ''win32''
                  then andthen (create_shortcut_windows h self exe) (\<lambda>_. ok ())
                  else ok ()) (\<lambda>_.
         andthen (cleanup_temp_files h self) (\<lambda>_.
         andthen (logger INFO ''NW.js update completed successfully!'' []) (\<lambda>_.
         andthen (logger INFO ''Launch the game using: {}'' [APath exe]) (\<lambda>_.
         andthen (logger INFO ''Type process.versions in the game console to check your new NW.js version!'' []) (\<lambda>_.
         ok exe)))))))))"

text \<open>\<open>ensures Q m\<close>: every normal return of \<open>m\<close> satisfies \<open>Q\<close>.\<close>

definition ensures :: "('a \<Rightarrow> world \<Rightarrow> bool) \<Rightarrow> 'a action \<Rightarrow> bool" where
  "ensures Q m = (\<forall>w. case m w of (Inl e, w') \<Rightarrow> True | (Inr x, w') \<Rightarrow> Q x w')"

definition wipe_record :: message where
  "wipe_record = Msg INFO ''Cleaning game directory (deleting everything)...'' []"

text \<open>\<open>undisturbed w w'\<close>: between the two worlds nothing was deleted and the Wiper did
  not start.\<close>

definition undisturbed :: "world \<Rightarrow> world \<Rightarrow> bool" where
  "undisturbed w w' = (grows w w' \<and> logs_only (\<lambda>m. m \<noteq> wipe_record) w w')"

text \<open>The example world with a plain file where the holding area would be created.\<close>

definition blocked_world :: world where
  "blocked_world =
     \<lparr> fs = demo_fs @ [([''home'', ''u'', ''temp_My Game_files''], File ''x'')], log = [] \<rparr>"

subsection \<open>The run before and after the rename\<close>

definition steps_before_finalizer :: "host \<Rightarrow> automator \<Rightarrow> bool \<Rightarrow> unit action" where
  "steps_before_finalizer h self create_backup =
     andthen (steps_before_preserver h self create_backup) (\<lambda>nwjs_dir.
     andthen (save_important_files h self) (\<lambda>temp_dir.
     andthen (clean_game_directory h self) (\<lambda>_.
     andthen (copy_nwjs_to_game h self nwjs_dir) (\<lambda>_.
     restore_important_files h self temp_dir))))"

definition steps_after_rename :: "host \<Rightarrow> automator \<Rightarrow> pypath option \<Rightarrow> pypath action" where
  "steps_after_rename h self game_exe =
     andthen (cleanup_nwjs_files h self) (\<lambda>_.
     case game_exe of
       None \<Rightarrow> raise (FileNotFoundError ''Could not create game executable'')
     | Some exe \<Rightarrow>
         andthen (if sys_platform h = ''win32''
                  then andthen (create_shortcut_windows h self exe) (\<lambda>_. ok ())
                  else ok ()) (\<lambda>_.
         andthen (cleanup_temp_files h self) (\<lambda>_.
         andthen (logger INFO ''NW.js update completed successfully!'' []) (\<lambda>_.
         andthen (logger INFO ''Launch the game using: {}'' [APath exe]) (\<lambda>_.
         andthen (logger INFO ''Type process.versions in the game console to check your new NW.js version!'' []) (\<lambda>_.
         ok exe))))))"

text \<open>The three calls of the \<open>try\<close> of \<open>rename_executable\<close> that come before its log
  record, for the candidate name that the search has found.\<close>

definition rename_attempt :: "host \<Rightarrow> automator \<Rightarrow> string \<Rightarrow> unit action" where
  "rename_attempt h self exe_name =
     andthen (if_then (path_exists h (game_exe_path h self)) (unlink h (game_exe_path h self))) (\<lambda>_.
     andthen (rename h (joinpath (game_path self) exe_name) (game_exe_path h self)) (\<lambda>_.
     if sys_platform h \<noteq> ''win32'' then chmod h (game_exe_path h self) else ok ()))"

definition rename_failed_record :: "exn \<Rightarrow> message" where
  "rename_failed_record e = Msg ERROR ''Could not rename executable: {}'' [AExn e]"

text \<open>The records that a step added to the log.\<close>

definition new_records :: "world \<Rightarrow> world \<Rightarrow> message list" where
  "new_records w w' = drop (length (log w)) (log w')"

definition no_rename_failure :: "message \<Rightarrow> bool" where
  "no_rename_failure m = (case m of Msg l f a \<Rightarrow> f \<noteq> ''Could not rename executable: {}'')"

text \<open>A host on which every change of mode is refused, and a game that is ready for the
  update.\<close>

definition fixed_mode_host :: host where
  "fixed_mode_host = demo_host \<lparr> chmod_denied := (\<lambda>p. True) \<rparr>"

definition ready_world :: world where
  "ready_world =
     \<lparr> fs = [([''home''], Dir), ([''home'', ''u''], Dir), ([''home'', ''u'', ''My Game''], Dir),
              ([''home'', ''u'', ''My Game'', ''package.json''],
                 File (json_dumps 0 (JObject [(''name'', JString ''my-game'')]))),
              ([''home'', ''u'', ''My Game'', ''www''], Dir),
              ([''home'', ''u'', ''My Game'', ''index.html''], File ''i''),
              ([''home'', ''u'', ''nwjs''], Dir),
              ([''home'', ''u'', ''nwjs'', ''nw''], File ''ELF'')],
       log = [] \<rparr>"

subsection \<open>The run after the backup\<close>





text \<open>\<open>below_text windows s\<close>: the text \<open>s\<close> does not begin with a separator, so that
  \<open>p / s\<close> is \<open>p\<close> followed by the components of \<open>s\<close>.\<close>

definition below_text :: "bool \<Rightarrow> string \<Rightarrow> bool" where
  "below_text windows s = (\<not> (s \<noteq> [] \<and> is_sep windows (hd s)))"


section \<open>Theorems\<close>

lemma arch_lookup: "dict_get arch_map raw ''x64'' = spec_arch_token raw"
  by (simp add: dict_get_def arch_map_def spec_arch_token_def)

lemma platform_lookup: "dict_get platform_map os ''win'' = spec_platform_token os"
  by (simp add: dict_get_def platform_map_def spec_platform_token_def)

lemma version_normalised:
  "(if startswith v ''v'' then v else ''v'' @ v) = spec_version v"
  by (cases v) (auto simp: startswith_def spec_version_def)

text \<open>
  Claim C4. The URL construction is a function of the version string, the flavor flag,
  the raw platform and the raw architecture alone: it returns
  \<open>base/version/filename\<close>, where the version carries a leading \<open>v\<close>, the filename
  encodes flavor, version, platform token and architecture token, the five recognised
  architecture values give the three canonical tokens and the three operating
  systems the three platform tokens (with the documented defaults), and the extension
  is \<open>.zip\<close> for the token \<open>win\<close> and \<open>.tar.gz\<close> for the other two.
\<close>

theorem get_nwjs_download_url_spec:
  "get_nwjs_download_url h self =
     (nwjs_url_base self @ ''/'' @ spec_version (nwjs_version self) @ ''/'' @
        spec_filename (use_sdk self) (spec_version (nwjs_version self))
          (spec_platform_token (sys_platform h)) (spec_arch_token (machine h)),
      spec_filename (use_sdk self) (spec_version (nwjs_version self))
        (spec_platform_token (sys_platform h)) (spec_arch_token (machine h)))
   \<and> hd (spec_version (nwjs_version self)) = CHR ''v''
   \<and> map spec_arch_token [''AMD64'', ''x86_64'', ''arm64'', ''i386'', ''x86'']
        = [''x64'', ''x64'', ''arm64'', ''ia32'', ''ia32'']
   \<and> map spec_platform_token [''win32'', ''darwin'', ''linux'']
        = [''win'', ''osx'', ''linux'']
   \<and> map spec_extension [''win'', ''osx'', ''linux''] = [''.zip'', ''.tar.gz'', ''.tar.gz'']"
proof -
  have url: "get_nwjs_download_url h self =
     (nwjs_url_base self @ ''/'' @ spec_version (nwjs_version self) @ ''/'' @
        spec_filename (use_sdk self) (spec_version (nwjs_version self))
          (spec_platform_token (sys_platform h)) (spec_arch_token (machine h)),
      spec_filename (use_sdk self) (spec_version (nwjs_version self))
        (spec_platform_token (sys_platform h)) (spec_arch_token (machine h)))"
    unfolding get_nwjs_download_url_def arch_lookup platform_lookup version_normalised
    by (simp add: Let_def spec_filename_def spec_extension_def)
  have v: "hd (spec_version (nwjs_version self)) = CHR ''v''"
    by (cases "nwjs_version self") (auto simp: spec_version_def)
  have toks: "map spec_arch_token [''AMD64'', ''x86_64'', ''arm64'', ''i386'', ''x86'']
        = [''x64'', ''x64'', ''arm64'', ''ia32'', ''ia32'']"
    "map spec_platform_token [''win32'', ''darwin'', ''linux''] = [''win'', ''osx'', ''linux'']"
    "map spec_extension [''win'', ''osx'', ''linux''] = [''.zip'', ''.tar.gz'', ''.tar.gz'']"
    by (simp_all add: spec_arch_token_def spec_platform_token_def spec_extension_def)
  from url v toks show ?thesis by simp
qed

subsection \<open>The combinators\<close>

lemma fs_logged [simp]: "fs (logged l f a w) = fs w"
  by (simp add: logged_def)

lemma log_logged [simp]: "log (logged l f a w) = log w @ [Msg l f a]"
  by (simp add: logged_def)

lemma path_exists_logged [simp]: "path_exists h p (logged l f a w) = path_exists h p w"
  by (simp add: path_exists_def)

lemma path_is_dir_logged [simp]: "path_is_dir h p (logged l f a w) = path_is_dir h p w"
  by (simp add: path_is_dir_def)

lemma path_is_file_logged [simp]: "path_is_file h p (logged l f a w) = path_is_file h p w"
  by (simp add: path_is_file_def)

lemma andthen_logger [simp]: "andthen (logger l f a) k w = k () (logged l f a w)"
  by (simp add: andthen_def logger_def)

lemma andthen_ok [simp]: "andthen (ok x) k w = k x w"
  by (simp add: andthen_def ok_def)

lemma andthen_raise [simp]: "andthen (raise e) k w = (Inl e, w)"
  by (simp add: andthen_def raise_def)

lemma andthen_gets [simp]: "andthen (gets g) k w = k (g w) w"
  by (simp add: andthen_def gets_def)

lemma resolve_joinpath [simp]: "resolve h (joinpath p n) = resolve h p @ [n]"
  by (simp add: resolve_def joinpath_def)

subsection \<open>The Validator\<close>

lemma validate_and_fix_unchanged:
  assumes "fs_read (resolve h p) (fs w) = Inr text"
    and "json_loads h text = Some (JObject kvs)"
    and "\<not> name_missing kvs"
  shows "validate_and_fix_package_json h self p w =
           (Inr (), logged INFO ''Validating package.json...'' [] w)"
  using assms unfolding validate_and_fix_package_json_def
  by simp (simp add: andthen_def ok_def load_json_def)

lemma validate_and_fix_rewrites:
  assumes "fs_read (resolve h p) (fs w) = Inr text"
    and "json_loads h text = Some (JObject kvs)"
    and "name_missing kvs"
    and "fs_is_dir (fs w) (butlast (resolve h p))"
  shows "validate_and_fix_package_json h self p w =
           (Inr (),
            logged INFO ''package.json fixes saved'' []
              ((logged INFO ''  Fixed: Added missing name field: {}''
                  [AStr (lower (replace_char CHR '' '' CHR ''-'' (path_name (game_path self))))]
                  (logged INFO ''Validating package.json...'' [] w))
               \<lparr>fs := AList.update (resolve h p)
                        (File (json_dumps 0 (JObject (AList.update ''name''
                           (JString (lower (replace_char CHR '' '' CHR ''-''
                              (path_name (game_path self))))) kvs))))
                        (fs w)\<rparr>))"
proof -
  from assms(1) have nd: "\<not> fs_is_dir (fs w) (resolve h p)" "resolve h p \<noteq> []"
    by (auto simp: fs_read_def fs_is_dir_def lookup_def split: option.splits node.splits if_splits)
  show ?thesis
    using assms nd unfolding validate_and_fix_package_json_def
    by simp
       (simp add: andthen_def ok_def try_except_def write_text_def fs_op_def fs_write_def
          Let_def logger_def load_json_def)
qed

text \<open>
  Claim C8. On a manifest that already holds a non-empty identifier the Validator writes
  nothing: the file system after the run is the file system before it, so the
  manifest is byte-identical, whether the run is the inner
  \<open>validate_and_fix_package_json\<close> or the whole \<open>validate_game_directory\<close>.
\<close>

theorem validator_idempotent:
  assumes "fs_read (resolve h (joinpath (game_path self) ''package.json'')) (fs w) = Inr text"
    and "json_loads h text = Some (JObject kvs)"
    and "\<not> name_missing kvs"
  shows "fs (snd (validate_and_fix_package_json h self
                    (joinpath (game_path self) ''package.json'') w)) = fs w
       \<and> fs (snd (validate_game_directory h self w)) = fs w
       \<and> fs_read (resolve h (joinpath (game_path self) ''package.json''))
            (fs (snd (validate_game_directory h self w))) = Inr text"
proof -
  have inner: "validate_and_fix_package_json h self (joinpath (game_path self) ''package.json'') w
                 = (Inr (), logged INFO ''Validating package.json...'' [] w)"
    by (rule validate_and_fix_unchanged [OF assms])
  have outer: "fs (snd (validate_game_directory h self w)) = fs w"
    unfolding validate_game_directory_def
    by (simp add: inner andthen_def try_except_def logger_def)
  from inner outer assms(1) show ?thesis by simp
qed

lemma fixed_world_manifest:
  "fs_read (resolve demo_host (joinpath (game_path demo_self) ''package.json'')) (fs fixed_world)
     = Inr (json_dumps 0 (JObject [(''name'', JString ''my-game'')]))"
  unfolding fixed_world_def by code_simp

lemma demo_loads_fixed:
  "json_loads demo_host (json_dumps 0 (JObject [(''name'', JString ''my-game'')]))
     = Some (JObject [(''name'', JString ''my-game'')])"
  by code_simp

theorem validator_idempotent_witness:
  "fs (snd (validate_game_directory demo_host demo_self fixed_world)) = fs fixed_world
   \<and> fs_read [''home'', ''u'', ''My Game'', ''package.json'']
        (fs (snd (validate_game_directory demo_host demo_self fixed_world)))
       = Inr (json_dumps 0 (JObject [(''name'', JString ''my-game'')]))"
proof -
  have nm: "\<not> name_missing [(''name'', JString ''my-game'')]"
    by (simp add: name_missing_def)
  have r: "resolve demo_host (joinpath (game_path demo_self) ''package.json'')
             = [''home'', ''u'', ''My Game'', ''package.json'']"
    by code_simp
  note th = validator_idempotent [OF fixed_world_manifest demo_loads_fixed nm]
  have a: "fs (snd (validate_game_directory demo_host demo_self fixed_world)) = fs fixed_world"
    by (rule conjunct1 [OF conjunct2 [OF th]])
  have c: "fs_read (resolve demo_host (joinpath (game_path demo_self) ''package.json''))
             (fs (snd (validate_game_directory demo_host demo_self fixed_world)))
            = Inr (json_dumps 0 (JObject [(''name'', JString ''my-game'')]))"
    by (rule conjunct2 [OF conjunct2 [OF th]])
  show ?thesis by (rule conjI [OF a c [unfolded r]])
qed

text \<open>
  Claim C3. The identifier that the Validator derives is the directory's name, and
  \<open>Path('.')\<close> has the empty name: started as \<open>--game-path .\<close> inside a valid game whose
  manifest is \<open>{}\<close>, the Validator succeeds and writes a manifest whose identifier is
  the empty string.
\<close>

theorem validator_empty_identifier:
  \<open>fst (validate_game_directory dot_host dot_self demo_world) = Inr ()
   \<and> path_exists dot_host (joinpath (game_path dot_self) ''www'') demo_world
   \<and> fs_read [''home'', ''u'', ''My Game'', ''package.json''] (fs demo_world) = Inr ''{}''
   \<and> json_loads dot_host ''{}'' = Some (JObject [])
   \<and> fs_read [''home'', ''u'', ''My Game'', ''package.json'']
        (fs (snd (validate_game_directory dot_host dot_self demo_world)))
       = Inr (json_dumps 0 (JObject [(''name'', JString [])]))
   \<and> json_dumps 0 (JObject [(''name'', JString [])]) = ''{\<newline>  "name": ""\<newline>}''\<close>
  by code_simp

text \<open>
  For a directory with a name the derived identifier is not empty, and the document
  that is written differs from the parsed one in the identifier only.
\<close>

lemma derived_name_empty_iff:
  "lower (replace_char CHR '' '' CHR ''-'' n) = [] \<longleftrightarrow> n = []"
  by (simp add: lower_def replace_char_def)

lemma update_name_other_fields:
  "k \<noteq> ''name'' \<Longrightarrow> map_of (AList.update ''name'' v kvs) k = map_of kvs k"
  by (simp add: update_conv')

lemma validator_fixes_manifest:
  assumes "path_exists h (game_path self) w"
    and "path_exists h (joinpath (game_path self) ''www'') w"
    and "fs_read (resolve h (joinpath (game_path self) ''package.json'')) (fs w) = Inr text"
    and "json_loads h text = Some (JObject kvs)"
    and "name_missing kvs"
    and "path_is_dir h (game_path self) w"
  shows "fst (validate_game_directory h self w) = Inr ()
       \<and> fs_read (resolve h (joinpath (game_path self) ''package.json''))
            (fs (snd (validate_game_directory h self w)))
           = Inr (json_dumps 0 (JObject (AList.update ''name''
                   (JString (lower (replace_char CHR '' '' CHR ''-'' (path_name (game_path self)))))
                   kvs)))"
proof -
  have pe: "path_exists h (joinpath (game_path self) ''package.json'') w"
    using assms(3)
    by (auto simp: path_exists_def fs_exists_def fs_read_def split: option.splits)
  have par: "fs_is_dir (fs w) (butlast (resolve h (joinpath (game_path self) ''package.json'')))"
    using assms(6) by (simp add: path_is_dir_def)
  note inner = validate_and_fix_rewrites [OF assms(3) assms(4) assms(5) par, of self]
  show ?thesis
    unfolding validate_game_directory_def using assms(1,2) pe
    by (simp add: inner andthen_def try_except_def logger_def fs_read_def lookup_def
          update_conv')
qed

subsection \<open>The backup\<close>

text \<open>
  Claim C10. When the sibling path named by the target's name and \<open>_backup\<close> exists,
  \<open>backup_game\<close> copies nothing: it returns that path, the file system is unchanged and
  the only effect is the log record that the backup already exists.
\<close>

theorem backup_game_keeps_existing:
  assumes "path_exists h (backup_path self) w"
  shows "backup_game h self w =
           (Inr (backup_path self),
            logged INFO ''Backup already exists: {}'' [APath (backup_path self)] w)
         \<and> fs (snd (backup_game h self w)) = fs w"
  using assms by (simp add: backup_game_def ok_def)

theorem backup_game_keeps_existing_witness:
  "path_exists demo_host (backup_path demo_self) stale_backup_world
   \<and> fst (backup_game demo_host demo_self stale_backup_world)
       = Inr (Path False [''My Game_backup''])
   \<and> fs (snd (backup_game demo_host demo_self stale_backup_world)) = fs stale_backup_world"
proof -
  have e: "path_exists demo_host (backup_path demo_self) stale_backup_world"
    by code_simp
  have b: "backup_path demo_self = Path False [''My Game_backup'']"
    by code_simp
  from backup_game_keeps_existing [OF e] e b show ?thesis by simp
qed

subsection \<open>The synthesized entry-point document\<close>

lemma fs_exists_iff_child:
  "p \<noteq> [] \<Longrightarrow> fs_exists f p \<longleftrightarrow> p \<in> set (children f (butlast p))"
  by (auto simp: fs_exists_def lookup_def children_def map_of_eq_None_iff image_iff)

text \<open>Counting in a text that is given in pieces: no occurrence crosses the end of a
  piece whose last characters do not hold the first character of the word.\<close>

lemma startswith_append:
  assumes "sub \<noteq> []" and "hd sub \<notin> set (drop (length a - (length sub - 1)) a)" and "a \<noteq> []"
  shows "startswith (a @ b) sub = startswith a sub"
proof (cases "length sub \<le> length a")
  case True
  then show ?thesis by (simp add: startswith_def)
next
  case False
  then have "drop (length a - (length sub - 1)) a = a" by simp
  with assms have "hd a \<noteq> hd sub" by (cases a) auto
  with assms show ?thesis
    by (cases a; cases sub) (auto simp: startswith_def)
qed

lemma count_occurrences_append:
  assumes "sub \<noteq> []" and "hd sub \<notin> set (drop (length a - (length sub - 1)) a)"
  shows "count_occurrences sub (a @ b) = count_occurrences sub a + count_occurrences sub b"
  using assms(2)
proof (induction a)
  case Nil
  then show ?case by simp
next
  case (Cons c a)
  have sub: "set (drop (length a - (length sub - 1)) a)
               \<subseteq> set (drop (length (c # a) - (length sub - 1)) (c # a))"
    by (cases "length sub - 1 \<le> length a") (auto simp: Suc_diff_le drop_Cons' dest: in_set_dropD)
  with Cons.prems have ih: "hd sub \<notin> set (drop (length a - (length sub - 1)) a)" by blast
  have "startswith ((c # a) @ b) sub = startswith (c # a) sub"
    by (rule startswith_append [OF assms(1) Cons.prems]) simp
  with Cons.IH [OF ih] show ?case by simp
qed

lemma count_occurrences_concat:
  assumes "sub \<noteq> []"
    and "list_all (\<lambda>a. hd sub \<notin> set (drop (length a - (length sub - 1)) a)) chunks"
  shows "count_occurrences sub (concat chunks) = sum_list (map (count_occurrences sub) chunks)"
  using assms(2) by (induction chunks) (simp_all add: count_occurrences_append [OF assms(1)])

lemma two_tags_count:
  "count_occurrences ''<script''
     (basic_html [script_tag ''js/plugins.js'', script_tag ''js/main.js'']) = 2"
proof -
  have pieces: "basic_html [script_tag ''js/plugins.js'', script_tag ''js/main.js'']
      = concat (html_head_lines @ [script_tag ''js/plugins.js'', [CHR 0x0A],
                                   script_tag ''js/main.js''] @ html_foot_lines)"
    by (simp add: basic_html_def html_head_def html_foot_def)
  show ?thesis
    unfolding pieces
    by (subst count_occurrences_concat)
       (simp_all add: html_head_lines_def html_foot_lines_def script_tag_def startswith_def)
qed

text \<open>
  Claim C7. When the script folder \<open>www/js\<close> exists and its only entries are
  \<open>plugins.js\<close> and \<open>main.js\<close>, the library and core sections contribute nothing: the
  list of tags is the tag that names \<open>js/plugins.js\<close> followed by the tag that names
  \<open>js/main.js\<close>, both given here as the text that is written; the document holds these
  two script tags in this order and no other, and it is what \<open>create_basic_index_html\<close>
  writes to \<open>index.html\<close>. (The method is read as repaired at its lines 424 to 430, see
  the definition.)
\<close>

theorem two_script_tags:
  assumes js: "path_exists h (joinpath (joinpath (game_path self) ''www'') ''js'') w"
    and only: "set (children (fs w) (resolve h (game_path self) @ [''www'', ''js'']))
                 = {resolve h (game_path self) @ [''www'', ''js'', ''plugins.js''],
                    resolve h (game_path self) @ [''www'', ''js'', ''main.js'']}"
    and root: "path_is_dir h (game_path self) w"
    and free: "\<not> path_is_dir h (joinpath (game_path self) ''index.html'') w"
  shows \<open>script_tags h self w
           = [''    <script type="text/javascript" src="js/plugins.js"></script>'',
              ''    <script type="text/javascript" src="js/main.js"></script>'']
       \<and> basic_html (script_tags h self w)
           = html_head @ ''    <script type="text/javascript" src="js/plugins.js"></script>''
               @ [CHR 0x0A] @ ''    <script type="text/javascript" src="js/main.js"></script>''
               @ html_foot
       \<and> count_occurrences ''<script'' (basic_html (script_tags h self w)) = 2
       \<and> fst (create_basic_index_html h self w) = Inr ()
       \<and> fs_read (resolve h (joinpath (game_path self) ''index.html''))
            (fs (snd (create_basic_index_html h self w)))
           = Inr (html_head @ ''    <script type="text/javascript" src="js/plugins.js"></script>''
                    @ [CHR 0x0A] @ ''    <script type="text/javascript" src="js/main.js"></script>''
                    @ html_foot)\<close>
proof -
  have ex: "fs_exists (fs w) (resolve h (game_path self) @ [''www'', ''js'', n])
              \<longleftrightarrow> n = ''plugins.js'' \<or> n = ''main.js''" for n
    using fs_exists_iff_child [of "resolve h (game_path self) @ [''www'', ''js'', n]" "fs w"] only
    by (auto simp: butlast_append)
  have tags: "script_tags h self w = [script_tag ''js/plugins.js'', script_tag ''js/main.js'']"
  proof -
    have libs: "\<not> path_exists h (joinpath (joinpath (joinpath (game_path self) ''www'') ''js'') ''libs'') w"
      by (simp add: path_exists_def ex)
    have core: "[script_tag (''js/'' @ core_file). core_file \<leftarrow> core_order,
                   path_exists h (joinpath (joinpath (joinpath (game_path self) ''www'') ''js'')
                     core_file) w] = []"
      by (simp add: path_exists_def ex core_order_def)
    have final: "[script_tag (''js/'' @ final_file). final_file \<leftarrow> [''plugins.js'', ''main.js''],
                   path_exists h (joinpath (joinpath (joinpath (game_path self) ''www'') ''js'')
                     final_file) w] = [script_tag ''js/plugins.js'', script_tag ''js/main.js'']"
      by (simp add: path_exists_def ex)
    show ?thesis
      unfolding script_tags_def Let_def core final using js libs by simp
  qed
  have doc: "basic_html (script_tags h self w)
           = html_head @ script_tag ''js/plugins.js'' @ [CHR 0x0A] @ script_tag ''js/main.js''
               @ html_foot"
    by (simp add: tags basic_html_def)
  have cnt: "count_occurrences ''<script'' (basic_html (script_tags h self w)) = 2"
    unfolding tags by (rule two_tags_count)
  have wr: "create_basic_index_html h self w
              = (Inr (), logged INFO ''  Created: basic index.html with detected JS files'' []
                   (w\<lparr>fs := AList.update (resolve h (game_path self) @ [''index.html''])
                              (File (basic_html [script_tag ''js/plugins.js'',
                                                 script_tag ''js/main.js''])) (fs w)\<rparr>))"
    using root free unfolding create_basic_index_html_def tags
    by (simp add: try_except_def andthen_def write_text_def fs_op_def fs_write_def
          path_is_dir_def logger_def)
  have rd: "fs_read (resolve h (joinpath (game_path self) ''index.html''))
              (fs (snd (create_basic_index_html h self w)))
             = Inr (basic_html [script_tag ''js/plugins.js'', script_tag ''js/main.js''])"
    unfolding wr by (simp add: fs_read_def lookup_def update_conv')
  have ok: "fst (create_basic_index_html h self w) = Inr ()"
    unfolding wr by simp
  have rd': "fs_read (resolve h (joinpath (game_path self) ''index.html''))
               (fs (snd (create_basic_index_html h self w)))
              = Inr (html_head @ script_tag ''js/plugins.js'' @ [CHR 0x0A]
                       @ script_tag ''js/main.js'' @ html_foot)"
    unfolding rd by (simp add: basic_html_def)
  have lit: \<open>script_tag ''js/plugins.js''
               = ''    <script type="text/javascript" src="js/plugins.js"></script>''\<close>
    \<open>script_tag ''js/main.js'' = ''    <script type="text/javascript" src="js/main.js"></script>''\<close>
    by (simp_all add: script_tag_def)
  from tags doc cnt ok rd' show ?thesis unfolding lit by blast
qed

theorem two_script_tags_witness:
  \<open>script_tags demo_host demo_self scripts_world
     = [''    <script type="text/javascript" src="js/plugins.js"></script>'',
        ''    <script type="text/javascript" src="js/main.js"></script>'']
   \<and> count_occurrences ''<script'' (basic_html (script_tags demo_host demo_self scripts_world)) = 2
   \<and> fst (create_basic_index_html demo_host demo_self scripts_world) = Inr ()\<close>
proof -
  have js: "path_exists demo_host (joinpath (joinpath (game_path demo_self) ''www'') ''js'')
              scripts_world"
    by code_simp
  have only: "set (children (fs scripts_world) (resolve demo_host (game_path demo_self) @ [''www'', ''js'']))
                 = {resolve demo_host (game_path demo_self) @ [''www'', ''js'', ''plugins.js''],
                    resolve demo_host (game_path demo_self) @ [''www'', ''js'', ''main.js'']}"
    by code_simp
  have root: "path_is_dir demo_host (game_path demo_self) scripts_world"
    by code_simp
  have free: "\<not> path_is_dir demo_host (joinpath (game_path demo_self) ''index.html'') scripts_world"
    by code_simp
  from two_script_tags [OF js only root free] show ?thesis by blast
qed

subsection \<open>The Wiper\<close>

lemma map_of_filter_key:
  "Q k \<Longrightarrow> map_of (filter (\<lambda>e. Q (fst e)) f) k = map_of f k"
  by (induction f) auto

lemma map_of_filter_out:
  "\<not> Q k \<Longrightarrow> map_of (filter (\<lambda>e. Q (fst e)) f) k = None"
  by (induction f) auto

lemma list_ex_filter: "list_ex P (filter Q f) = list_ex (\<lambda>e. P e \<and> Q e) f"
  by (induction f) auto

lemma delete_as_filter: "AList.delete a f = filter (\<lambda>e. fst e \<noteq> a) f"
  by (induction f) auto

lemma incomparable_sym: "incomparable a b \<Longrightarrow> incomparable b a"
  by (simp add: incomparable_def)

lemma incomparable_below: "incomparable a q \<Longrightarrow> prefix q p \<Longrightarrow> \<not> prefix a p"
  unfolding incomparable_def using prefix_same_cases by blast

lemma incomparable_same_length:
  "length a = length b \<Longrightarrow> a \<noteq> b \<Longrightarrow> incomparable a b"
  by (auto simp: incomparable_def prefix_def)

lemma rmtree_view:
  assumes "fs_rmtree D a f = Inr f'" and "incomparable a q"
  shows "lookup f' q = lookup f q"
    and "list_ex (\<lambda>e. prefix q (fst e) \<and> D (fst e)) f'
           = list_ex (\<lambda>e. prefix q (fst e) \<and> D (fst e)) f"
proof -
  from assms(1) have f': "f' = filter (\<lambda>e. \<not> prefix a (fst e)) f"
    by (auto simp: fs_rmtree_def split: option.splits node.splits if_splits)
  from assms(2) have "\<not> prefix a q" by (simp add: incomparable_def)
  then show "lookup f' q = lookup f q"
    unfolding f' lookup_def by (simp add: map_of_filter_key [where Q = "\<lambda>p. \<not> prefix a p"])
  show "list_ex (\<lambda>e. prefix q (fst e) \<and> D (fst e)) f'
           = list_ex (\<lambda>e. prefix q (fst e) \<and> D (fst e)) f"
    unfolding f' list_ex_filter using incomparable_below [OF assms(2)]
    by (auto simp: list_ex_iff)
qed

lemma unlink_view:
  assumes "fs_unlink D a f = Inr f'" and "incomparable a q"
  shows "lookup f' q = lookup f q"
    and "list_ex (\<lambda>e. prefix q (fst e) \<and> D (fst e)) f'
           = list_ex (\<lambda>e. prefix q (fst e) \<and> D (fst e)) f"
proof -
  from assms(1) have f': "f' = filter (\<lambda>e. fst e \<noteq> a) f"
    by (auto simp: fs_unlink_def delete_as_filter split: option.splits node.splits if_splits)
  from assms(2) have "q \<noteq> a" by (auto simp: incomparable_def)
  then show "lookup f' q = lookup f q"
    unfolding f' lookup_def by (simp add: map_of_filter_key [where Q = "\<lambda>p. p \<noteq> a"])
  show "list_ex (\<lambda>e. prefix q (fst e) \<and> D (fst e)) f'
           = list_ex (\<lambda>e. prefix q (fst e) \<and> D (fst e)) f"
    unfolding f' list_ex_filter using assms(2)
    by (auto simp: list_ex_iff incomparable_def)
qed

lemma rmtree_gone: "fs_rmtree D a f = Inr f' \<Longrightarrow> a \<noteq> [] \<Longrightarrow> lookup f' a = None"
  by (auto simp: fs_rmtree_def lookup_def map_of_filter_out [where Q = "\<lambda>p. \<not> prefix a p"]
      split: option.splits node.splits if_splits)

lemma unlink_gone: "fs_unlink D a f = Inr f' \<Longrightarrow> a \<noteq> [] \<Longrightarrow> lookup f' a = None"
  by (auto simp: fs_unlink_def lookup_def delete_as_filter
        map_of_filter_out [where Q = "\<lambda>p. p \<noteq> a"]
      split: option.splits node.splits if_splits)

lemma remove_item_cases:
  obtains (failed) e where "remove_item h item w = (Inl e, w)"
  | (removed) f' where "remove_item h item w = (Inr (), w\<lparr>fs := f'\<rparr>)"
      and "(path_is_dir h item w \<and> fs_rmtree (removal_denied h) (resolve h item) (fs w) = Inr f')
           \<or> (\<not> path_is_dir h item w \<and> fs_unlink (removal_denied h) (resolve h item) (fs w) = Inr f')"
  by (cases "path_is_dir h item w";
      cases "fs_rmtree (removal_denied h) (resolve h item) (fs w)";
      cases "fs_unlink (removal_denied h) (resolve h item) (fs w)")
     (auto simp: remove_item_def rmtree_def unlink_def fs_op_def)

lemma removal_result_eq: "removal_result h w item = fst (remove_item h item w)"
  by (simp add: removal_result_def remove_item_def)

lemma removal_result_view:
  assumes "lookup (fs w1) (resolve h item) = lookup (fs w) (resolve h item)"
    and "list_ex (\<lambda>e. prefix (resolve h item) (fst e) \<and> removal_denied h (fst e)) (fs w1)
           = list_ex (\<lambda>e. prefix (resolve h item) (fst e) \<and> removal_denied h (fst e)) (fs w)"
  shows "removal_result h w1 item = removal_result h w item"
  using assms
  by (simp add: removal_result_def path_is_dir_def fs_is_dir_def rmtree_def unlink_def
        fs_op_def fs_rmtree_def fs_unlink_def split: option.splits node.splits)


lemma clean_loop_Cons:
  "clean_loop h (item # items) n w =
     (case remove_item h item w of
        (Inr u, w') \<Rightarrow>
          clean_loop h items (Suc n) (logged INFO ''  Removed: {}'' [AStr (path_name item)] w')
      | (Inl e, w') \<Rightarrow>
          clean_loop h items n
            (logged WARNING ''  Could not remove {}: {}'' [AStr (path_name item), AExn e] w'))"
  by (simp add: remove_item_def)

lemma remove_item_view:
  assumes "incomparable (resolve h item) q"
  shows "lookup (fs (snd (remove_item h item w))) q = lookup (fs w) q"
    and "list_ex (\<lambda>e. prefix q (fst e) \<and> removal_denied h (fst e)) (fs (snd (remove_item h item w)))
           = list_ex (\<lambda>e. prefix q (fst e) \<and> removal_denied h (fst e)) (fs w)"
  by (cases h item w rule: remove_item_cases;
      auto simp: rmtree_view [OF _ assms] unlink_view [OF _ assms])+

lemma clean_loop_view:
  assumes "\<forall>i\<in>set items. incomparable (resolve h i) q"
  shows "lookup (fs (snd (clean_loop h items n w))) q = lookup (fs w) q"
  using assms
proof (induction items arbitrary: n w)
  case Nil
  then show ?case by simp
next
  case (Cons a items)
  from Cons.prems have a: "incomparable (resolve h a) q"
    and rest: "\<forall>i\<in>set items. incomparable (resolve h i) q" by simp_all
  show ?case
  proof (cases h a w rule: remove_item_cases)
    case (failed e)
    then show ?thesis using Cons.IH [OF rest] by (simp add: clean_loop_Cons del: clean_loop.simps)
  next
    case (removed f')
    with remove_item_view(1) [OF a, of w] have "lookup f' q = lookup (fs w) q" by simp
    with removed show ?thesis
      using Cons.IH [OF rest] by (simp add: clean_loop_Cons del: clean_loop.simps)
  qed
qed

lemma clean_loop_result:
  assumes "\<forall>i\<in>set items. resolve h i \<noteq> []"
    and "\<forall>i\<in>set items. \<forall>j\<in>set items. i \<noteq> j \<longrightarrow> incomparable (resolve h i) (resolve h j)"
    and "distinct items"
  shows "fst (clean_loop h items n w) = n + length (filter (removal_succeeds h w) items)
       \<and> log (snd (clean_loop h items n w)) = log w @ map (removal_record h w) items
       \<and> (\<forall>i\<in>set items. lookup (fs (snd (clean_loop h items n w))) (resolve h i)
             = (if removal_succeeds h w i then None else lookup (fs w) (resolve h i)))"
  using assms
proof (induction items arbitrary: n w)
  case Nil
  then show ?case by simp
next
  case (Cons a items)
  from Cons.prems have ne: "\<forall>i\<in>set items. resolve h i \<noteq> []" and a_ne: "resolve h a \<noteq> []"
    and pw: "\<forall>i\<in>set items. \<forall>j\<in>set items. i \<noteq> j \<longrightarrow> incomparable (resolve h i) (resolve h j)"
    and a_rest: "\<forall>i\<in>set items. incomparable (resolve h a) (resolve h i)"
    and rest_a: "\<forall>i\<in>set items. incomparable (resolve h i) (resolve h a)"
    and di: "distinct items" and a_notin: "a \<notin> set items"
    by (auto simp: incomparable_def)
  note IH = Cons.IH [OF ne pw di]
  show ?case
  proof (cases h a w rule: remove_item_cases)
    case (failed e)
    let ?w1 = "logged WARNING ''  Could not remove {}: {}'' [AStr (path_name a), AExn e] w"
    have res_a: "removal_result h w a = Inl e"
      using failed by (simp add: removal_result_eq)
    have same: "removal_result h ?w1 i = removal_result h w i" for i
      by (rule removal_result_view) simp_all
    then have same2: "removal_succeeds h ?w1 = removal_succeeds h w"
      "removal_record h ?w1 = removal_record h w"
      by (auto simp: removal_succeeds_def removal_record_def fun_eq_iff)
    have step: "clean_loop h (a # items) n w = clean_loop h items n ?w1"
      using failed by (simp add: clean_loop_Cons del: clean_loop.simps)
    show ?thesis
      unfolding step using IH [of n ?w1] res_a
      by (simp add: same2 removal_succeeds_def removal_record_def clean_loop_view [OF rest_a])
  next
    case (removed f')
    let ?w1 = "logged INFO ''  Removed: {}'' [AStr (path_name a)] (w\<lparr>fs := f'\<rparr>)"
    have res_a: "removal_result h w a = Inr ()"
      using removed by (simp add: removal_result_eq)
    have gone: "lookup f' (resolve h a) = None"
      using removed(2) a_ne by (auto simp: rmtree_gone unlink_gone)
    have view: "lookup f' q = lookup (fs w) q"
      "list_ex (\<lambda>e. prefix q (fst e) \<and> removal_denied h (fst e)) f'
         = list_ex (\<lambda>e. prefix q (fst e) \<and> removal_denied h (fst e)) (fs w)"
      if "incomparable (resolve h a) q" for q
      using remove_item_view [OF that, of w] removed(1) by simp_all
    have same: "removal_result h ?w1 i = removal_result h w i" if "i \<in> set items" for i
      by (rule removal_result_view) (simp_all add: view a_rest that)
    then have same2: "filter (removal_succeeds h ?w1) items = filter (removal_succeeds h w) items"
      "map (removal_record h ?w1) items = map (removal_record h w) items"
      by (auto simp: removal_succeeds_def removal_record_def intro!: filter_cong)
    have same3: "removal_succeeds h ?w1 i = removal_succeeds h w i" if "i \<in> set items" for i
      using same [OF that] by (simp add: removal_succeeds_def)
    have step: "clean_loop h (a # items) n w = clean_loop h items (Suc n) ?w1"
      using removed by (simp add: clean_loop_Cons del: clean_loop.simps)
    show ?thesis
      unfolding step using IH [of "Suc n" ?w1] res_a
      by (simp add: same2 same3 view a_rest gone removal_succeeds_def [of h w a]
            removal_record_def [of h w a] clean_loop_view [OF rest_a])
  qed
qed


lemma children_shape: "c \<in> set (children f d) \<Longrightarrow> c = d @ [last c] \<and> fs_exists f c"
  by (auto simp: children_def fs_exists_def lookup_def map_of_eq_None_iff image_iff
      intro: append_butlast_last_id [symmetric])

lemma target_children_resolve:
  "map (resolve h) (target_children h self w) = children (fs w) (resolve h (game_path self))"
proof -
  have "resolve h (joinpath (game_path self) (last c)) = c"
    if "c \<in> set (children (fs w) (resolve h (game_path self)))" for c
    using children_shape [OF that] by simp
  then show ?thesis
    unfolding target_children_def by (simp add: comp_def map_idI)
qed

lemma target_children_facts:
  shows "\<forall>i\<in>set (target_children h self w). resolve h i \<noteq> []"
    and "\<forall>i\<in>set (target_children h self w). \<forall>j\<in>set (target_children h self w).
           i \<noteq> j \<longrightarrow> incomparable (resolve h i) (resolve h j)"
    and "distinct (target_children h self w)"
    and "\<forall>i\<in>set (target_children h self w). path_exists h i w"
proof -
  let ?cs = "children (fs w) (resolve h (game_path self))"
  have r: "resolve h (joinpath (game_path self) (last c)) = c" if "c \<in> set ?cs" for c
    using children_shape [OF that] by simp
  show "\<forall>i\<in>set (target_children h self w). resolve h i \<noteq> []"
    by (auto simp: target_children_def)
  show "\<forall>i\<in>set (target_children h self w). path_exists h i w"
    using children_shape by (auto simp: target_children_def path_exists_def r)
  have "distinct (map (resolve h) (target_children h self w))"
    unfolding target_children_resolve by (simp add: children_def)
  then show "distinct (target_children h self w)"
    by (simp add: distinct_map)
  show "\<forall>i\<in>set (target_children h self w). \<forall>j\<in>set (target_children h self w).
           i \<noteq> j \<longrightarrow> incomparable (resolve h i) (resolve h j)"
    by (auto simp: target_children_def resolve_def joinpath_def intro!: incomparable_same_length)
qed

lemma removal_result_logged [simp]:
  "removal_result h (logged l f a w) item = removal_result h w item"
  by (rule removal_result_view) simp_all

text \<open>
  Claim C5. On a target directory the Wiper never raises: it returns normally whatever
  the removals do. Its log is the opening record, then one record per child in the
  order of the listing (the removal record of a child whose removal succeeds, a
  warning with the error of a child whose removal fails), then the count, which is the
  number of children whose removal succeeds. Afterwards a child exists exactly when its
  removal failed.
\<close>

theorem wiper_best_effort:
  assumes "path_is_dir h (game_path self) w"
  shows "fst (clean_game_directory h self w) = Inr ()
       \<and> log (snd (clean_game_directory h self w))
           = log w @ Msg INFO ''Cleaning game directory (deleting everything)...'' []
               # map (removal_record h w) (target_children h self w)
               @ [Msg INFO ''Removed {} items from game directory''
                    [ANat (length (filter (removal_succeeds h w) (target_children h self w)))]]
       \<and> (\<forall>item\<in>set (target_children h self w).
             path_exists h item (snd (clean_game_directory h self w))
               = (\<not> removal_succeeds h w item))"
proof -
  let ?w0 = "logged INFO ''Cleaning game directory (deleting everything)...'' [] w"
  let ?items = "target_children h self w"
  have succ: "removal_succeeds h ?w0 = removal_succeeds h w"
    and reco: "removal_record h ?w0 = removal_record h w"
    by (simp_all add: removal_succeeds_def removal_record_def fun_eq_iff)
  note loop = clean_loop_result [OF target_children_facts(1,2,3), of h self w 0 ?w0]
  obtain n w' where nw: "clean_loop h ?items 0 ?w0 = (n, w')" by (cases "clean_loop h ?items 0 ?w0")
  have run: "clean_game_directory h self w
               = (Inr (), logged INFO ''Removed {} items from game directory'' [ANat n] w')"
    using assms nw unfolding clean_game_directory_def
    by (simp add: andthen_def iterdir_def path_is_dir_def target_children_def logger_def)
  from loop nw have n: "n = length (filter (removal_succeeds h w) ?items)"
    and lg: "log w' = log ?w0 @ map (removal_record h w) ?items"
    and ex: "\<forall>i\<in>set ?items. lookup (fs w') (resolve h i)
               = (if removal_succeeds h w i then None else lookup (fs w) (resolve h i))"
    by (simp_all add: succ reco)
  have "path_exists h item (snd (clean_game_directory h self w)) = (\<not> removal_succeeds h w item)"
    if "item \<in> set ?items" for item
    using ex that target_children_facts(4) [of h self w]
    by (auto simp: run path_exists_def fs_exists_def)
  then show ?thesis by (simp add: run n lg)
qed

theorem wiper_best_effort_witness:
  "path_is_dir locked_host (game_path demo_self) locked_world
   \<and> fst (clean_game_directory locked_host demo_self locked_world) = Inr ()
   \<and> map (path_name) (target_children locked_host demo_self locked_world)
       = [''a.txt'', ''locked.dat'', ''b.txt'']
   \<and> map (removal_succeeds locked_host locked_world)
         (target_children locked_host demo_self locked_world) = [True, False, True]
   \<and> last (log (snd (clean_game_directory locked_host demo_self locked_world)))
       = Msg INFO ''Removed {} items from game directory'' [ANat 2]"
proof -
  have d: "path_is_dir locked_host (game_path demo_self) locked_world"
    by code_simp
  have names: "map (path_name) (target_children locked_host demo_self locked_world)
       = [''a.txt'', ''locked.dat'', ''b.txt'']"
    by code_simp
  have outcomes: "map (removal_succeeds locked_host locked_world)
         (target_children locked_host demo_self locked_world) = [True, False, True]"
    by code_simp
  have two: "length (filter (removal_succeeds locked_host locked_world)
               (target_children locked_host demo_self locked_world)) = 2"
    by code_simp
  from wiper_best_effort [OF d] d names outcomes two show ?thesis by simp
qed

subsection \<open>Moving and copying subtrees\<close>




subsection \<open>The Finalizer's rename\<close>


lemma find_SomeD: "find P xs = Some x \<Longrightarrow> P x \<and> x \<in> set xs"
  by (auto simp: find_Some_iff)

lemma rename_executable_found:
  assumes "find (\<lambda>exe_name. path_exists h (joinpath (game_path self) exe_name) w)
             (possible_executables h) = Some c"
  shows "rename_executable h self w =
           (case rename_attempt h self c
                   (logged INFO ''Renaming NW.js executable to {}...''
                      [AStr (executable_name self)] w) of
              (Inr u, w1) \<Rightarrow>
                (Inr (Some (game_exe_path h self)),
                 logged INFO ''Renamed {} to {}''
                   [AStr (path_name (joinpath (game_path self) c)),
                    AStr (path_name (game_exe_path h self))] w1)
            | (Inl e, w1) \<Rightarrow>
                (Inr (Some (joinpath (game_path self) c)),
                 logged ERROR ''Could not rename executable: {}'' [AExn e] w1))"
  using assms
  by (simp add: rename_executable_def Let_def rename_attempt_def)
     (simp add: try_except_def andthen_def ok_def logger_def split: prod.splits sum.splits)

lemma game_exe_path_plain:
  assumes "n = game_exe_name h self" and "n \<noteq> []" and "n \<noteq> ''.''"
    and "\<forall>ch\<in>set n. \<not> is_sep (sys_platform h = ''win32'') ch"
  shows "game_exe_path h self = joinpath (game_path self) n"
proof -
  have "split_at sep s = [s]" if "\<forall>ch\<in>set s. \<not> sep ch" for sep and s :: string
    using that by (induction s) auto
  with assms show ?thesis
    by (cases n) (auto simp: game_exe_path_def truediv_def str_parts_def joinpath_def)
qed




subsection \<open>Rules for \<open>preserves\<close>\<close>

lemma stable_grows: "stable grows"
  by (auto simp: stable_def grows_def)

lemma stable_logs_only: "stable (logs_only P)"
  by (auto simp: stable_def logs_only_def)


lemma preservesD: "preserves R m \<Longrightarrow> m w = (r, w') \<Longrightarrow> R w w'"
  by (auto simp: preserves_def dest: spec [of _ w])

lemma preserves_ok: "stable R \<Longrightarrow> preserves R (ok x)"
  by (simp add: preserves_def stable_def ok_def)

lemma preserves_raise: "stable R \<Longrightarrow> preserves R (raise e)"
  by (simp add: preserves_def stable_def raise_def)

lemma preserves_gets: "stable R \<Longrightarrow> preserves R (gets g)"
  by (simp add: preserves_def stable_def gets_def)

lemma preserves_pure: "stable R \<Longrightarrow> (\<And>w. snd (m w) = w) \<Longrightarrow> preserves R m"
  by (simp add: preserves_def stable_def)

lemma preserves_andthen:
  assumes "stable R" and "preserves R m" and "\<And>x. preserves R (k x)"
  shows "preserves R (andthen m k)"
  unfolding preserves_def
proof
  fix w
  obtain r w1 where m: "m w = (r, w1)" by (cases "m w")
  from preservesD [OF assms(2) m] have 1: "R w w1" .
  show "R w (snd (andthen m k w))"
  proof (cases r)
    case (Inl e)
    with m 1 show ?thesis by (simp add: andthen_def)
  next
    case (Inr x)
    obtain r2 w2 where k: "k x w1 = (r2, w2)" by (cases "k x w1")
    from preservesD [OF assms(3) k] have "R w1 w2" .
    with 1 assms(1) have "R w w2" unfolding stable_def by blast
    with m Inr k show ?thesis by (simp add: andthen_def)
  qed
qed

lemma preserves_try_except:
  assumes "stable R" and "preserves R m" and "\<And>e. preserves R (handler e)"
  shows "preserves R (try_except m handler)"
  unfolding preserves_def
proof
  fix w
  obtain r w1 where m: "m w = (r, w1)" by (cases "m w")
  from preservesD [OF assms(2) m] have 1: "R w w1" .
  show "R w (snd (try_except m handler w))"
  proof (cases r)
    case (Inr x)
    with m 1 show ?thesis by (simp add: try_except_def)
  next
    case (Inl e)
    obtain r2 w2 where k: "handler e w1 = (r2, w2)" by (cases "handler e w1")
    from preservesD [OF assms(3) k] have "R w1 w2" .
    with 1 assms(1) have "R w w2" unfolding stable_def by blast
    with m Inl k show ?thesis by (simp add: try_except_def)
  qed
qed

lemma preserves_if_then: "stable R \<Longrightarrow> preserves R m \<Longrightarrow> preserves R (if_then c m)"
  by (simp add: preserves_def stable_def if_then_def)

lemma preserves_cond:
  "preserves R m \<Longrightarrow> preserves R m' \<Longrightarrow> preserves R (\<lambda>w. if c w then m w else m' w)"
  by (simp add: preserves_def)

lemma preserves_if:
  "preserves R m \<Longrightarrow> preserves R m' \<Longrightarrow> preserves R (if b then m else m')"
  by simp

lemma preserves_case_option:
  "preserves R a \<Longrightarrow> (\<And>x. preserves R (b x)) \<Longrightarrow> preserves R (case v of None \<Rightarrow> a | Some x \<Rightarrow> b x)"
  by (cases v) simp_all

lemma preserves_wcase_option:
  "preserves R a \<Longrightarrow> (\<And>x. preserves R (b x))
     \<Longrightarrow> preserves R (\<lambda>w. case g w of None \<Rightarrow> a w | Some x \<Rightarrow> b x w)"
  by (simp add: preserves_def split: option.splits)

lemma preserves_fail: "stable R \<Longrightarrow> preserves R (\<lambda>w. (Inl e, w))"
  by (simp add: preserves_def stable_def)

lemmas preserves_rules =
  preserves_ok preserves_raise preserves_gets preserves_andthen preserves_try_except
  preserves_if_then preserves_cond preserves_if preserves_case_option preserves_wcase_option
  preserves_fail

subsection \<open>What the steps write to the log\<close>

lemma logs_only_logger: "P (Msg l f a) \<Longrightarrow> preserves (logs_only P) (logger l f a)"
  by (simp add: preserves_def logs_only_def logger_def)

lemma logs_only_fs_op: "preserves (logs_only P) (fs_op g)"
  by (auto simp: preserves_def logs_only_def fs_op_def split: sum.splits)

lemma logs_only_silent: "(\<And>w. log (snd (m w)) = log w) \<Longrightarrow> preserves (logs_only P) m"
  by (simp add: preserves_def logs_only_def)

lemma logs_only_write_text: "preserves (logs_only P) (write_text h p c)"
  and logs_only_mkdir: "preserves (logs_only P) (mkdir_exist_ok h p)"
  and logs_only_unlink: "preserves (logs_only P) (unlink h p)"
  and logs_only_rmtree: "preserves (logs_only P) (rmtree h p)"
  and logs_only_copy2: "preserves (logs_only P) (copy2 h p q)"
  and logs_only_copytree: "preserves (logs_only P) (copytree h b p q)"
  and logs_only_rename: "preserves (logs_only P) (rename h p q)"
  by (simp_all add: write_text_def mkdir_exist_ok_def unlink_def rmtree_def copy2_def copytree_def
        rename_def logs_only_fs_op)

lemma logs_only_iterdir: "preserves (logs_only P) (iterdir h d)"
  by (rule logs_only_silent) (simp add: iterdir_def)

lemma logs_only_extractall: "preserves (logs_only P) (extractall h a d)"
  by (rule logs_only_silent) (simp add: extractall_def split: sum.splits option.splits)

lemma chmod_pure: "snd (chmod h p w) = w"
  by (simp add: chmod_def)

lemma logs_only_chmod: "preserves (logs_only P) (chmod h p)"
  by (rule logs_only_silent) (simp add: chmod_pure)

lemmas logs_only_rules =
  logs_only_logger logs_only_write_text logs_only_mkdir logs_only_unlink logs_only_rmtree
  logs_only_copy2 logs_only_copytree logs_only_rename logs_only_iterdir logs_only_extractall
  logs_only_chmod stable_logs_only

lemma preserves_case_json:
  "(\<And>kvs. preserves R (f kvs)) \<Longrightarrow> preserves R g
     \<Longrightarrow> preserves R (case j of JObject kvs \<Rightarrow> f kvs | _ \<Rightarrow> g)"
  by (cases j) simp_all

lemma load_json_pure: "snd (load_json h p w) = w"
  by (simp add: load_json_def split: sum.splits option.splits)

lemma logs_only_admitted:
  "admits P \<Longrightarrow> f \<notin> set reserved_formats \<Longrightarrow> preserves (logs_only P) (logger l f a)"
  by (rule logs_only_logger) (simp add: admits_def)

lemma logs_only_refl: "logs_only P w w"
  by (simp add: logs_only_def)

lemma logs_only_trans: "logs_only P a b \<Longrightarrow> logs_only P b c \<Longrightarrow> logs_only P a c"
  by (auto simp: logs_only_def)

lemma logs_only_logged: "P (Msg l f a) \<Longrightarrow> logs_only P w (logged l f a w)"
  by (simp add: logs_only_def)

lemma logs_only_load_json: "preserves (logs_only P) (load_json h p)"
  by (rule logs_only_silent) (simp add: load_json_pure)

lemmas logs_rules =
  preserves_rules preserves_case_json logs_only_admitted logs_only_rules logs_only_load_json

lemma validate_and_fix_logs:
  "admits P \<Longrightarrow> preserves (logs_only P) (validate_and_fix_package_json h self p)"
  unfolding validate_and_fix_package_json_def Let_def
  by (intro logs_rules; simp add: reserved_formats_def)

lemma validate_game_directory_logs:
  "admits P \<Longrightarrow> preserves (logs_only P) (validate_game_directory h self)"
  unfolding validate_game_directory_def
  by (intro logs_rules validate_and_fix_logs; simp add: reserved_formats_def)

lemma backup_game_logs: "admits P \<Longrightarrow> preserves (logs_only P) (backup_game h self)"
  unfolding backup_game_def
  by (intro logs_rules; simp add: reserved_formats_def)

lemma download_nwjs_logs: "admits P \<Longrightarrow> preserves (logs_only P) (download_nwjs h self d)"
  unfolding download_nwjs_def Let_def
  by (intro logs_rules; simp add: reserved_formats_def)

lemma extract_nwjs_logs: "admits P \<Longrightarrow> preserves (logs_only P) (extract_nwjs h self a d)"
  unfolding extract_nwjs_def
  by (intro logs_rules; simp add: reserved_formats_def)

lemma setup_nwjs_logs: "admits P \<Longrightarrow> preserves (logs_only P) (setup_nwjs h self)"
  unfolding setup_nwjs_def Let_def
  by (intro logs_rules download_nwjs_logs extract_nwjs_logs; simp add: reserved_formats_def)

lemma save_important_files_logs:
  "admits P \<Longrightarrow> preserves (logs_only P) (save_important_files h self)"
  unfolding save_important_files_def Let_def
  by (intro logs_rules; simp add: reserved_formats_def)

subsection \<open>Steps that delete nothing\<close>

lemma grows_fs_op:
  "(\<And>f f' p. g f = Inr f' \<Longrightarrow> fs_exists f p \<Longrightarrow> fs_exists f' p) \<Longrightarrow> preserves grows (fs_op g)"
  by (auto simp: preserves_def grows_def fs_op_def split: sum.splits)

lemma grows_same_fs: "(\<And>w. fs (snd (m w)) = fs w) \<Longrightarrow> preserves grows m"
  by (simp add: preserves_def grows_def)

lemma fs_write_grows: "fs_write q c f = Inr f' \<Longrightarrow> fs_exists f p \<Longrightarrow> fs_exists f' p"
  by (auto simp: fs_write_def fs_exists_def lookup_def update_conv' split: if_splits)

lemma fs_mkdir_grows: "fs_mkdir_exist_ok q f = Inr f' \<Longrightarrow> fs_exists f p \<Longrightarrow> fs_exists f' p"
  by (auto simp: fs_mkdir_exist_ok_def fs_exists_def lookup_def update_conv' split: if_splits)

lemma fs_copy2_grows: "fs_copy2 s d f = Inr f' \<Longrightarrow> fs_exists f p \<Longrightarrow> fs_exists f' p"
  by (auto simp: fs_copy2_def dest: fs_write_grows split: sum.splits if_splits)

lemma merge_grows: "fs_exists f p \<Longrightarrow> fs_exists (AList.merge f es) p"
  by (auto simp: fs_exists_def lookup_def merge_conv' map_add_def split: option.splits)

lemma fs_copytree_grows: "fs_copytree b s d f = Inr f' \<Longrightarrow> fs_exists f p \<Longrightarrow> fs_exists f' p"
  by (auto simp: fs_copytree_def fs_exists_def lookup_def update_conv' merge_conv' map_add_def
      split: option.splits node.splits if_splits)

lemma grows_logger: "preserves grows (logger l f a)"
  by (rule grows_same_fs) (simp add: logger_def)

lemma grows_write_text: "preserves grows (write_text h p c)"
  and grows_mkdir: "preserves grows (mkdir_exist_ok h p)"
  and grows_copy2: "preserves grows (copy2 h p q)"
  and grows_copytree: "preserves grows (copytree h b p q)"
  unfolding write_text_def mkdir_exist_ok_def copy2_def copytree_def
  by (rule grows_fs_op, erule (1) fs_write_grows fs_mkdir_grows fs_copy2_grows fs_copytree_grows)+

lemma grows_iterdir: "preserves grows (iterdir h d)"
  by (rule grows_same_fs) (simp add: iterdir_def)

lemma grows_load_json: "preserves grows (load_json h p)"
  by (rule grows_same_fs) (simp add: load_json_pure)

lemma grows_extractall: "preserves grows (extractall h a d)"
  by (auto simp: preserves_def grows_def extractall_def merge_grows split: sum.splits option.splits)

lemma grows_chmod: "preserves grows (chmod h p)"
  by (rule grows_same_fs) (simp add: chmod_pure)

lemmas grows_rules =
  preserves_rules preserves_case_json grows_logger grows_write_text grows_mkdir grows_copy2
  grows_copytree grows_iterdir grows_load_json grows_extractall grows_chmod stable_grows

lemma validate_and_fix_grows: "preserves grows (validate_and_fix_package_json h self p)"
  unfolding validate_and_fix_package_json_def Let_def by (intro grows_rules)

lemma validate_game_directory_grows: "preserves grows (validate_game_directory h self)"
  unfolding validate_game_directory_def by (intro grows_rules validate_and_fix_grows)

lemma backup_game_grows: "preserves grows (backup_game h self)"
  unfolding backup_game_def by (intro grows_rules)

lemma download_nwjs_grows: "preserves grows (download_nwjs h self d)"
  unfolding download_nwjs_def Let_def by (intro grows_rules)

lemma extract_nwjs_grows: "preserves grows (extract_nwjs h self a d)"
  unfolding extract_nwjs_def by (intro grows_rules)

lemma setup_nwjs_grows: "preserves grows (setup_nwjs h self)"
  unfolding setup_nwjs_def Let_def by (intro grows_rules download_nwjs_grows extract_nwjs_grows)

lemma save_important_files_grows: "preserves grows (save_important_files h self)"
  unfolding save_important_files_def Let_def by (intro grows_rules)

subsection \<open>The log of the loops and of the later steps\<close>

lemma fs_op_cases:
  obtains (raised) e where "fs_op g w = (Inl e, w)"
  | (applied) f' where "fs_op g w = (Inr (), w\<lparr>fs := f'\<rparr>)" and "g (fs w) = Inr f'"
  by (cases "g (fs w)") (auto simp: fs_op_def)

lemma logs_only_fs_update: "logs_only P w w' \<Longrightarrow> logs_only P (w\<lparr>fs := f\<rparr>) w'"
  by (simp add: logs_only_def)

lemma logs_only_step:
  "P (Msg l f a) \<Longrightarrow> log w1 = log w \<Longrightarrow> logs_only P (logged l f a w1) w2 \<Longrightarrow> logs_only P w w2"
  by (auto simp: logs_only_def)

lemma clean_loop_logs:
  assumes "\<And>l f a. f \<noteq> ''Could not rename executable: {}'' \<Longrightarrow> P (Msg l f a)"
  shows "logs_only P w (snd (clean_loop h items n w))"
proof (induction items arbitrary: n w)
  case Nil
  then show ?case by (simp add: logs_only_refl)
next
  case (Cons a items)
  show ?case
    by (cases h a w rule: remove_item_cases)
       (auto simp: clean_loop_Cons simp del: clean_loop.simps
          intro!: logs_only_step [OF _ _ Cons.IH] assms)
qed

lemma clean_game_directory_logs:
  assumes "\<And>l f a. f \<noteq> ''Could not rename executable: {}'' \<Longrightarrow> P (Msg l f a)"
  shows "preserves (logs_only P) (clean_game_directory h self)"
proof -
  have loop: "preserves (logs_only P)
                (\<lambda>w. case clean_loop h items 0 w of
                        (removed_count, w') \<Rightarrow>
                          logger INFO ''Removed {} items from game directory''
                            [ANat removed_count] w')" for items
    unfolding preserves_def
  proof
    fix w
    obtain n w' where l: "clean_loop h items 0 w = (n, w')" by (cases "clean_loop h items 0 w")
    from clean_loop_logs [where P = P, OF assms, of w h items 0] l have "logs_only P w w'" by simp
    moreover have "logs_only P w' (logged INFO ''Removed {} items from game directory'' [ANat n] w')"
      by (rule logs_only_logged) (simp add: assms)
    ultimately show "logs_only P w (snd (case clean_loop h items 0 w of
                        (removed_count, w') \<Rightarrow>
                          logger INFO ''Removed {} items from game directory''
                            [ANat removed_count] w'))"
      using l by (auto simp: logger_def intro: logs_only_trans)
  qed
  show ?thesis
    unfolding clean_game_directory_def
    by (intro preserves_rules logs_only_rules loop; simp add: assms)
qed

lemma copy_loop_logs:
  assumes "admits P"
  shows "logs_only P w (snd (copy_loop h self items n w))"
proof (induction items arbitrary: n w)
  case Nil
  then show ?case by (simp add: logs_only_refl)
next
  case (Cons a items)
  have ok: "P (Msg INFO ''  Copied: {}'' [AStr (path_name a)])"
    using assms by (simp add: admits_def reserved_formats_def)
  let ?dest = "joinpath (game_path self) (path_name a)"
  let ?copy = "\<lambda>w. if path_is_dir h a w then copytree h True a ?dest w
                   else andthen (copy2 h a ?dest) (\<lambda>_.
                        if sys_platform h \<noteq> ''win32'' \<and> path_name a \<in> set [''nw'', ''nwjs'']
                        then chmod h ?dest else ok ()) w"
  have quiet: "preserves (logs_only (\<lambda>m. False)) ?copy"
    by (intro preserves_rules logs_only_rules)
  obtain r w1 where s: "?copy w = (r, w1)" by (cases "?copy w")
  from preservesD [OF quiet s] have lg: "log w1 = log w"
    by (auto simp: logs_only_def list_all_iff)
  have step: "copy_loop h self (a # items) n w =
                (case ?copy w of
                   (Inl e, w') \<Rightarrow> (Inl e, w')
                 | (Inr u, w') \<Rightarrow>
                     copy_loop h self items (Suc n)
                       (logged INFO ''  Copied: {}'' [AStr (path_name a)] w'))"
    by simp
  show ?case
  proof (cases r)
    case (Inl e)
    then show ?thesis unfolding step s by (simp add: logs_only_def lg)
  next
    case (Inr u)
    then show ?thesis unfolding step s by (simp add: logs_only_step [OF ok lg Cons.IH])
  qed
qed

lemma copy_nwjs_to_game_logs:
  assumes "admits P"
  shows "preserves (logs_only P) (copy_nwjs_to_game h self d)"
proof -
  have loop: "preserves (logs_only P) (copy_loop h self items 0)" for items
    by (simp add: preserves_def copy_loop_logs [OF assms])
  show ?thesis
    unfolding copy_nwjs_to_game_def
    by (intro logs_rules loop assms; simp add: reserved_formats_def)
qed

lemma create_basic_index_html_logs:
  assumes "admits P"
  shows "preserves (logs_only P) (create_basic_index_html h self)"
proof -
  have "preserves (logs_only P)
          (try_except
             (andthen (write_text h (joinpath (game_path self) ''index.html'') c)
                (\<lambda>_. logger INFO ''  Created: basic index.html with detected JS files'' []))
             (\<lambda>e. andthen (logger ERROR ''Could not create basic index.html: {}'' [AExn e])
                      (\<lambda>_. raise e)))" for c
    by (intro logs_rules assms; simp add: reserved_formats_def)
  then show ?thesis
    by (simp add: preserves_def create_basic_index_html_def)
qed

lemma restore_important_files_logs:
  "admits P \<Longrightarrow> preserves (logs_only P) (restore_important_files h self t)"
  unfolding restore_important_files_def Let_def
  by (intro logs_rules create_basic_index_html_logs validate_and_fix_logs;
      simp add: reserved_formats_def)

lemma rename_executable_log_grows:
  "preserves (logs_only (\<lambda>m. True)) (rename_executable h self)"
  unfolding rename_executable_def Let_def
  by (intro preserves_rules logs_only_rules; simp)

lemma cleanup_loop_logs:
  assumes "admits P"
  shows "logs_only P w (snd (cleanup_loop h self names n w))"
proof (induction names arbitrary: n w)
  case Nil
  then show ?case by (simp add: logs_only_refl)
next
  case (Cons a names)
  have ok: "P (Msg INFO ''  Removed: {}'' [AStr a])"
    "\<And>e. P (Msg WARNING ''  Could not remove {}: {}'' [AStr a, AExn e])"
    using assms by (simp_all add: admits_def reserved_formats_def)
  have step: "cleanup_loop h self (a # names) n w =
     (if path_exists h (joinpath (game_path self) a) w
      then (case remove_item h (joinpath (game_path self) a) w of
              (Inr u, w') \<Rightarrow>
                cleanup_loop h self names (Suc n) (logged INFO ''  Removed: {}'' [AStr a] w')
            | (Inl e, w') \<Rightarrow>
                cleanup_loop h self names n
                  (logged WARNING ''  Could not remove {}: {}'' [AStr a, AExn e] w'))
      else cleanup_loop h self names n w)"
    by (simp add: remove_item_def)
  show ?case
    unfolding step
    by (cases h "joinpath (game_path self) a" w rule: remove_item_cases)
       (auto intro!: logs_only_step [OF _ _ Cons.IH] ok Cons.IH)
qed

lemma locale_loop_logs:
  assumes "admits P"
  shows "logs_only P w (snd (snd (locale_loop h items n w)))"
proof (induction items arbitrary: n w)
  case Nil
  then show ?case by (simp add: logs_only_refl)
next
  case (Cons a items)
  have ok: "P (Msg INFO ''  Removed: locales/{}'' [AStr (path_name a)])"
    using assms by (simp add: admits_def reserved_formats_def)
  show ?case
    by (cases "fs_unlink (removal_denied h) (resolve h a)" w rule: fs_op_cases)
       (auto simp: unlink_def logs_only_refl intro!: logs_only_step [OF ok _ Cons.IH] Cons.IH)
qed

lemma clean_locales_logs:
  assumes "admits P"
  shows "logs_only P w (snd (clean_locales h self n w))"
proof (cases "path_exists h (joinpath (game_path self) ''locales'') w
              \<and> path_is_dir h (joinpath (game_path self) ''locales'') w")
  case False
  then show ?thesis by (auto simp: clean_locales_def logs_only_refl)
next
  case True
  have ok: "\<And>e. P (Msg WARNING ''  Could not clean locales directory: {}'' [AExn e])"
    using assms by (simp add: admits_def reserved_formats_def)
  obtain r where it: "iterdir h (joinpath (game_path self) ''locales'') w = (r, w)"
    by (cases "fs_is_dir (fs w) (resolve h (joinpath (game_path self) ''locales''))")
       (simp_all add: iterdir_def)
  show ?thesis
  proof (cases r)
    case (Inl e)
    with True it show ?thesis
      by (simp add: clean_locales_def logs_only_logged ok)
  next
    case (Inr items)
    obtain e n' w' where l: "locale_loop h items n w = (e, n', w')"
      by (cases "locale_loop h items n w")
    from locale_loop_logs [OF assms, of w h items n] l have "logs_only P w w'" by simp
    with True it Inr l show ?thesis
      by (cases e) (auto simp: clean_locales_def intro: logs_only_trans logs_only_logged ok)
  qed
qed

lemma cleanup_nwjs_files_logs:
  assumes "admits P"
  shows "preserves (logs_only P) (cleanup_nwjs_files h self)"
  unfolding preserves_def
proof
  fix w
  let ?w0 = "logged INFO ''Cleaning up unnecessary NW.js files...'' [] w"
  have ok: "P (Msg INFO ''Cleaning up unnecessary NW.js files...'' [])"
    "\<And>n. P (Msg INFO ''Removed {} unnecessary files'' [ANat n])"
    "P (Msg INFO ''No unnecessary files to remove'' [])"
    using assms by (simp_all add: admits_def reserved_formats_def)
  obtain n1 w1 where l1: "cleanup_loop h self (cleanup_files self) 0 ?w0 = (n1, w1)"
    by (cases "cleanup_loop h self (cleanup_files self) 0 ?w0")
  obtain n2 w2 where l2: "clean_locales h self n1 w1 = (n2, w2)"
    by (cases "clean_locales h self n1 w1")
  have "logs_only P w ?w0" by (rule logs_only_logged) (rule ok)
  moreover have "logs_only P ?w0 w1"
    using cleanup_loop_logs [OF assms, of ?w0 h self "cleanup_files self" 0] l1 by simp
  moreover have "logs_only P w1 w2"
    using clean_locales_logs [OF assms, of w1 h self n1] l2 by simp
  ultimately have "logs_only P w w2" by (blast intro: logs_only_trans)
  then show "logs_only P w (snd (cleanup_nwjs_files h self w))"
    using l1 l2 ok
    by (auto simp: cleanup_nwjs_files_def logger_def intro: logs_only_trans logs_only_logged)
qed

lemma create_shortcut_windows_logs:
  "admits P \<Longrightarrow> preserves (logs_only P) (create_shortcut_windows h self exe)"
  unfolding create_shortcut_windows_def Let_def
  by (intro logs_rules; simp add: reserved_formats_def)

lemma cleanup_temp_files_logs:
  "admits P \<Longrightarrow> preserves (logs_only P) (cleanup_temp_files h self)"
  unfolding cleanup_temp_files_def
  by (intro logs_rules; simp add: reserved_formats_def)

subsection \<open>The Preserver before the Wiper\<close>

lemma andthen_assoc: "andthen (andthen m k) k' = andthen m (\<lambda>x. andthen (k x) k')"
  by (rule ext) (simp add: andthen_def split: prod.splits sum.splits)

lemma pipeline_split:
  "pipeline h self b =
     andthen (steps_before_preserver h self b) (\<lambda>nwjs_dir.
     andthen (save_important_files h self) (\<lambda>temp_dir.
     andthen (clean_game_directory h self) (\<lambda>_.
     steps_after_wiper h self nwjs_dir temp_dir)))"
  by (simp add: pipeline_def steps_before_preserver_def steps_after_wiper_def andthen_assoc)

lemma admits_not_wipe: "admits (\<lambda>m. m \<noteq> wipe_record)"
  by (simp add: admits_def wipe_record_def reserved_formats_def)

lemma admits_any: "admits (\<lambda>m. True)"
  by (simp add: admits_def)

lemma undisturbed_trans: "undisturbed a b \<Longrightarrow> undisturbed b c \<Longrightarrow> undisturbed a c"
  unfolding undisturbed_def using stable_grows stable_logs_only
  by (metis (no_types, lifting) stable_def)

lemma undisturbed_logged:
  "f \<noteq> ''Cleaning game directory (deleting everything)...'' \<Longrightarrow> undisturbed w (logged l f a w)"
  by (simp add: undisturbed_def grows_def logs_only_def wipe_record_def)

lemma preserves_both:
  "preserves grows m \<Longrightarrow> preserves (logs_only (\<lambda>m. m \<noteq> wipe_record)) m \<Longrightarrow> preserves undisturbed m"
  by (simp add: preserves_def undisturbed_def)

lemma steps_before_preserver_undisturbed: "preserves undisturbed (steps_before_preserver h self b)"
proof (rule preserves_both)
  show "preserves grows (steps_before_preserver h self b)"
    unfolding steps_before_preserver_def
    by (intro grows_rules validate_game_directory_grows backup_game_grows setup_nwjs_grows)
  show "preserves (logs_only (\<lambda>m. m \<noteq> wipe_record)) (steps_before_preserver h self b)"
    unfolding steps_before_preserver_def
    by (intro logs_rules validate_game_directory_logs backup_game_logs setup_nwjs_logs
          admits_not_wipe)
qed

lemma save_important_files_undisturbed: "preserves undisturbed (save_important_files h self)"
  by (intro preserves_both save_important_files_grows save_important_files_logs admits_not_wipe)

text \<open>A successful return of the Preserver is a passed check.\<close>

lemma ensuresI: "(\<And>w x w'. m w = (Inr x, w') \<Longrightarrow> Q x w') \<Longrightarrow> ensures Q m"
  by (auto simp: ensures_def split: prod.splits sum.splits)

lemma ensures_andthen:
  assumes "\<And>x. ensures Q (k x)"
  shows "ensures Q (andthen m k)"
proof (rule ensuresI)
  fix w y w'
  assume run: "andthen m k w = (Inr y, w')"
  obtain r w1 where m: "m w = (r, w1)" by (cases "m w")
  with run obtain x where "r = Inr x" and "k x w1 = (Inr y, w')"
    by (cases r) (auto simp: andthen_def)
  with assms [of x] show "Q y w'"
    by (auto simp: ensures_def dest: spec [of _ w1])
qed

lemma ensures_andthen_gets:
  "(\<And>w x w'. k (g w) w = (Inr x, w') \<Longrightarrow> Q x w') \<Longrightarrow> ensures Q (andthen (gets g) k)"
  by (rule ensuresI) simp

lemma ensuresD: "ensures Q m \<Longrightarrow> m w = (Inr x, w') \<Longrightarrow> Q x w'"
  by (auto simp: ensures_def dest: spec [of _ w])

lemma save_important_files_checked:
  "ensures (\<lambda>temp_dir w. temp_dir = holding_area self
              \<and> path_exists h (joinpath temp_dir ''package.json'') w
              \<and> path_exists h (joinpath temp_dir ''www'') w)
     (save_important_files h self)"
  unfolding save_important_files_def Let_def
proof (intro ensures_andthen_gets ensures_andthen)
  fix w x w'
  assume "(if [file \<leftarrow> [''package.json'', ''www''].
                 \<not> path_exists h (joinpath (holding_area self) file) w] \<noteq> []
           then andthen (logger ERROR ''Critical files not saved to temp directory: {}''
                           [AStrs [file \<leftarrow> [''package.json'', ''www''].
                                    \<not> path_exists h (joinpath (holding_area self) file) w]])
                  (\<lambda>_. andthen (logger ERROR ''Aborting to prevent data loss!'' [])
                          (\<lambda>_. raise (FileNotFoundError ''Failed to backup critical files'')))
           else andthen (logger INFO ''Important files saved to: {}'' [APath (holding_area self)])
                  (\<lambda>_. ok (holding_area self))) w = (Inr x, w')"
  then show "x = holding_area self
       \<and> path_exists h (joinpath x ''package.json'') w'
       \<and> path_exists h (joinpath x ''www'') w'"
    by (auto simp: raise_def ok_def split: if_splits)
qed


lemma clean_game_directory_opens:
  "\<exists>evs. log (snd (clean_game_directory h self w)) = log w @ wipe_record # evs"
proof -
  let ?w0 = "logged INFO ''Cleaning game directory (deleting everything)...'' [] w"
  show ?thesis
  proof (cases "fs_is_dir (fs w) (resolve h (game_path self))")
    case False
    then show ?thesis
      by (simp add: clean_game_directory_def wipe_record_def)
         (simp add: andthen_def iterdir_def)
  next
    case True
    let ?items = "map (\<lambda>c. joinpath (game_path self) (last c))
                    (children (fs w) (resolve h (game_path self)))"
    obtain n w' where l: "clean_loop h ?items 0 ?w0 = (n, w')"
      by (cases "clean_loop h ?items 0 ?w0")
    from clean_loop_logs [where P = "\<lambda>m. True", of ?w0 h ?items 0] l
    obtain evs where "log w' = log ?w0 @ evs" by (auto simp: logs_only_def)
    with True l show ?thesis
      by (simp add: clean_game_directory_def wipe_record_def)
         (simp add: andthen_def iterdir_def logger_def)
  qed
qed

lemma steps_after_wiper_logs: "preserves (logs_only (\<lambda>m. True)) (steps_after_wiper h self nd td)"
  unfolding steps_after_wiper_def
  by (intro preserves_rules logs_only_rules copy_nwjs_to_game_logs restore_important_files_logs
        rename_executable_log_grows cleanup_nwjs_files_logs create_shortcut_windows_logs
        cleanup_temp_files_logs admits_any; simp)

text \<open>
  Claim C1. In every run of \<open>process_game\<close>: if a step before the Preserver raises,
  or the Preserver itself raises (its verification of the copies included), the run
  ends as a failure and up to its end nothing that existed has been deleted and the
  Wiper has not started. If the Preserver returns, it returns the holding area, the
  copies of the manifest and of the assets directory exist there, nothing has been
  deleted and the Wiper has not started yet; only then does the Wiper start: its
  opening record is the first record of the log after the Preserver's return.
\<close>

theorem preserver_guards_wiper:
  "case steps_before_preserver h self b
          (logged INFO ''Starting NW.js update for: {}'' [APath (game_path self)] w) of
     (Inl e, w1) \<Rightarrow>
       fst (process_game h self b w) = Failure e
       \<and> undisturbed w (snd (process_game h self b w))
   | (Inr nwjs_dir, w1) \<Rightarrow>
       (case save_important_files h self w1 of
          (Inl e, w2) \<Rightarrow>
            fst (process_game h self b w) = Failure e
            \<and> undisturbed w (snd (process_game h self b w))
        | (Inr temp_dir, w2) \<Rightarrow>
            temp_dir = holding_area self
            \<and> path_exists h (joinpath temp_dir ''package.json'') w2
            \<and> path_exists h (joinpath temp_dir ''www'') w2
            \<and> undisturbed w w2
            \<and> (\<exists>evs. log (snd (process_game h self b w)) = log w2 @ wipe_record # evs))"
proof -
  let ?w0 = "logged INFO ''Starting NW.js update for: {}'' [APath (game_path self)] w"
  have start: "undisturbed w ?w0" by (rule undisturbed_logged) simp
  have failed: "undisturbed v (logged ERROR ''Update failed: {}'' [AExn e] v)" for v e
    by (rule undisturbed_logged) simp
  obtain r1 w1 where before: "steps_before_preserver h self b ?w0 = (r1, w1)"
    by (cases "steps_before_preserver h self b ?w0")
  from preservesD [OF steps_before_preserver_undisturbed before] start
  have u1: "undisturbed w w1" by (blast intro: undisturbed_trans)
  show ?thesis
  proof (cases r1)
    case (Inl e)
    with before have "process_game h self b w
                        = (Failure e, logged ERROR ''Update failed: {}'' [AExn e] w1)"
      by (simp add: process_game_def pipeline_split andthen_def)
    with before Inl u1 failed [of w1 e] show ?thesis
      by (auto intro: undisturbed_trans)
  next
    case (Inr nwjs_dir)
    obtain r2 w2 where save: "save_important_files h self w1 = (r2, w2)"
      by (cases "save_important_files h self w1")
    from preservesD [OF save_important_files_undisturbed save] u1
    have u2: "undisturbed w w2" by (blast intro: undisturbed_trans)
    show ?thesis
    proof (cases r2)
      case (Inl e)
      with before \<open>r1 = Inr nwjs_dir\<close> save
      have "process_game h self b w = (Failure e, logged ERROR ''Update failed: {}'' [AExn e] w2)"
        by (simp add: process_game_def pipeline_split andthen_def)
      with before \<open>r1 = Inr nwjs_dir\<close> save Inl u2 failed [of w2 e] show ?thesis
        by (auto intro: undisturbed_trans)
    next
      case (Inr temp_dir)
      from ensuresD [OF save_important_files_checked] save Inr
      have checked: "temp_dir = holding_area self"
        "path_exists h (joinpath temp_dir ''package.json'') w2"
        "path_exists h (joinpath temp_dir ''www'') w2"
        by blast+
      obtain r3 w3 where wipe: "clean_game_directory h self w2 = (r3, w3)"
        by (cases "clean_game_directory h self w2")
      from clean_game_directory_opens [of h self w2] wipe
      obtain evs3 where l3: "log w3 = log w2 @ wipe_record # evs3" by auto
      have "\<exists>evs. log (snd (process_game h self b w)) = log w2 @ wipe_record # evs"
      proof (cases r3)
        case (Inl e)
        with before \<open>r1 = Inr nwjs_dir\<close> save \<open>r2 = Inr temp_dir\<close> wipe l3 show ?thesis
          by (simp add: process_game_def pipeline_split andthen_def)
      next
        case (Inr u)
        obtain r4 w4 where rest: "steps_after_wiper h self nwjs_dir temp_dir w3 = (r4, w4)"
          by (cases "steps_after_wiper h self nwjs_dir temp_dir w3")
        from preservesD [OF steps_after_wiper_logs rest]
        obtain evs4 where "log w4 = log w3 @ evs4" by (auto simp: logs_only_def)
        with before \<open>r1 = Inr nwjs_dir\<close> save \<open>r2 = Inr temp_dir\<close> wipe Inr rest l3 show ?thesis
          by (cases r4) (simp_all add: process_game_def pipeline_split andthen_def)
      qed
      with before \<open>r1 = Inr nwjs_dir\<close> save Inr checked u2 show ?thesis
        by simp
    qed
  qed
qed

theorem preserver_guards_wiper_witness:
  "fst (steps_before_preserver demo_host demo_self False
          (logged INFO ''Starting NW.js update for: {}'' [APath (game_path demo_self)] blocked_world))
     = Inr (Path False [''nwjs''])
   \<and> fst (save_important_files demo_host demo_self
            (snd (steps_before_preserver demo_host demo_self False
                    (logged INFO ''Starting NW.js update for: {}'' [APath (game_path demo_self)]
                       blocked_world))))
       = Inl (FileExistsError ''mkdir'')
   \<and> fst (process_game demo_host demo_self False blocked_world) = Failure (FileExistsError ''mkdir'')
   \<and> undisturbed blocked_world (snd (process_game demo_host demo_self False blocked_world))
   \<and> fst (save_important_files demo_host demo_self
            (snd (steps_before_preserver demo_host demo_self False
                    (logged INFO ''Starting NW.js update for: {}'' [APath (game_path demo_self)]
                       demo_world))))
       = Inr (Path False [''temp_My Game_files''])
   \<and> wipe_record \<in> set (log (snd (process_game demo_host demo_self False demo_world)))"
proof -
  let ?start = "\<lambda>w. logged INFO ''Starting NW.js update for: {}'' [APath (game_path demo_self)] w"
  have f1: "fst (steps_before_preserver demo_host demo_self False (?start blocked_world))
              = Inr (Path False [''nwjs''])"
    by code_simp
  have f2: "fst (save_important_files demo_host demo_self
                   (snd (steps_before_preserver demo_host demo_self False (?start blocked_world))))
              = Inl (FileExistsError ''mkdir'')"
    by code_simp
  have g1: "fst (steps_before_preserver demo_host demo_self False (?start demo_world))
              = Inr (Path False [''nwjs''])"
    by code_simp
  have g2: "fst (save_important_files demo_host demo_self
                   (snd (steps_before_preserver demo_host demo_self False (?start demo_world))))
              = Inr (Path False [''temp_My Game_files''])"
    by code_simp
  obtain w1 where p: "steps_before_preserver demo_host demo_self False (?start blocked_world)
                        = (Inr (Path False [''nwjs'']), w1)"
    using f1 by (cases "steps_before_preserver demo_host demo_self False (?start blocked_world)") auto
  obtain w2 where s: "save_important_files demo_host demo_self w1 = (Inl (FileExistsError ''mkdir''), w2)"
    using f2 p by (cases "save_important_files demo_host demo_self w1") auto
  from preserver_guards_wiper [of demo_host demo_self False blocked_world] p s
  have a: "fst (process_game demo_host demo_self False blocked_world) = Failure (FileExistsError ''mkdir'')
           \<and> undisturbed blocked_world (snd (process_game demo_host demo_self False blocked_world))"
    by simp
  obtain v1 where q: "steps_before_preserver demo_host demo_self False (?start demo_world)
                        = (Inr (Path False [''nwjs'']), v1)"
    using g1 by (cases "steps_before_preserver demo_host demo_self False (?start demo_world)") auto
  obtain v2 where t: "save_important_files demo_host demo_self v1
                        = (Inr (Path False [''temp_My Game_files'']), v2)"
    using g2 q by (cases "save_important_files demo_host demo_self v1") auto
  from preserver_guards_wiper [of demo_host demo_self False demo_world] q t
  have b: "wipe_record \<in> set (log (snd (process_game demo_host demo_self False demo_world)))"
    by auto
  from f1 f2 a g2 b show ?thesis by blast
qed

subsection \<open>A refused rename\<close>

lemma pipeline_split_finalizer:
  "pipeline h self b =
     andthen (steps_before_finalizer h self b) (\<lambda>_.
     andthen (rename_executable h self) (\<lambda>game_exe.
     steps_after_rename h self game_exe))"
  by (simp add: pipeline_split steps_before_finalizer_def steps_after_wiper_def
        steps_after_rename_def andthen_assoc)

lemma admits_no_rename_failure: "admits no_rename_failure"
  by (simp add: admits_def no_rename_failure_def reserved_formats_def)

lemma logs_only_new_records:
  "logs_only P w w' \<Longrightarrow> m \<in> set (new_records w w') \<Longrightarrow> P m"
  by (auto simp: logs_only_def new_records_def list_all_iff)

lemma new_records_trans:
  assumes "logs_only (\<lambda>m. True) a b" and "logs_only (\<lambda>m. True) b c"
  shows "new_records a c = new_records a b @ new_records b c"
  using assms by (auto simp: logs_only_def new_records_def)

lemma steps_before_finalizer_logs:
  "preserves (logs_only no_rename_failure) (steps_before_finalizer h self b)"
  unfolding steps_before_finalizer_def steps_before_preserver_def
  by (intro logs_rules validate_game_directory_logs backup_game_logs setup_nwjs_logs
        save_important_files_logs clean_game_directory_logs copy_nwjs_to_game_logs
        restore_important_files_logs admits_no_rename_failure;
      simp add: no_rename_failure_def)

lemma steps_after_rename_logs:
  "preserves (logs_only no_rename_failure) (steps_after_rename h self exe)"
  unfolding steps_after_rename_def
  by (intro logs_rules cleanup_nwjs_files_logs create_shortcut_windows_logs
        cleanup_temp_files_logs admits_no_rename_failure;
      simp add: reserved_formats_def)

text \<open>The steps after the rename never raise once an executable path is in hand.\<close>

lemma cleanup_nwjs_files_returns: "fst (cleanup_nwjs_files h self w) = Inr ()"
  by (simp add: cleanup_nwjs_files_def logger_def split: prod.splits)

lemma create_shortcut_windows_returns: "\<exists>r. fst (create_shortcut_windows h self exe w) = Inr r"
  by (auto simp: create_shortcut_windows_def Let_def ok_def raise_def try_except_def andthen_def
        logger_def write_text_def fs_op_def split: sum.splits prod.splits)

lemma cleanup_temp_files_returns: "fst (cleanup_temp_files h self w) = Inr ()"
  by (auto simp: cleanup_temp_files_def if_then_def try_except_def andthen_def logger_def
        rmtree_def fs_op_def split: sum.splits prod.splits)

lemma steps_after_rename_returns: "fst (steps_after_rename h self (Some exe) w) = Inr exe"
proof -
  obtain w1 where c: "cleanup_nwjs_files h self w = (Inr (), w1)"
    using cleanup_nwjs_files_returns [of h self w] by (cases "cleanup_nwjs_files h self w") auto
  obtain r w2 where s: "create_shortcut_windows h self exe w1 = (Inr r, w2)"
    using create_shortcut_windows_returns [of h self exe w1]
    by (cases "create_shortcut_windows h self exe w1") auto
  have t: "\<exists>w3. cleanup_temp_files h self v = (Inr (), w3)" for v
    using cleanup_temp_files_returns [of h self v] by (cases "cleanup_temp_files h self v") auto
  from t [of w1] t [of w2] c s show ?thesis
    by (auto simp: steps_after_rename_def andthen_def ok_def logger_def)
qed

text \<open>What \<open>rename_executable\<close> returns: the destination when the three calls of its
  \<open>try\<close> return, the path of the candidate it found when one of them raises.\<close>

lemma rename_attempt_quiet: "log (snd (rename_attempt h self c w)) = log w"
proof -
  have "preserves (logs_only (\<lambda>m. False)) (rename_attempt h self c)"
    unfolding rename_attempt_def by (intro preserves_rules logs_only_rules)
  then show ?thesis
    by (auto simp: preserves_def logs_only_def list_all_iff dest: spec [of _ w])
qed

lemma rename_executable_handles:
  assumes "find (\<lambda>exe_name. path_exists h (joinpath (game_path self) exe_name) w)
             (possible_executables h) = Some c"
    and "fst (rename_attempt h self c
                (logged INFO ''Renaming NW.js executable to {}...''
                   [AStr (executable_name self)] w)) = Inl e"
  shows "fst (rename_executable h self w) = Inr (Some (joinpath (game_path self) c))"
    and "new_records w (snd (rename_executable h self w))
           = [Msg INFO ''Renaming NW.js executable to {}...'' [AStr (executable_name self)],
              rename_failed_record e]"
proof -
  let ?w0 = "logged INFO ''Renaming NW.js executable to {}...'' [AStr (executable_name self)] w"
  obtain w1 where a: "rename_attempt h self c ?w0 = (Inl e, w1)"
    using assms(2) by (cases "rename_attempt h self c ?w0") auto
  with rename_attempt_quiet [of h self c ?w0] have lg: "log w1 = log ?w0" by simp
  from a show "fst (rename_executable h self w) = Inr (Some (joinpath (game_path self) c))"
    by (simp add: rename_executable_found [OF assms(1)])
  from a lg show "new_records w (snd (rename_executable h self w))
           = [Msg INFO ''Renaming NW.js executable to {}...'' [AStr (executable_name self)],
              rename_failed_record e]"
    by (simp add: rename_executable_found [OF assms(1)] new_records_def rename_failed_record_def)
qed

lemma rename_executable_outcome:
  obtains (missing) w' where "rename_executable h self w = (Inr None, w')"
      and "logs_only no_rename_failure w w'"
  | (renamed) w' where
      "rename_executable h self w = (Inr (Some (game_exe_path h self)), w')"
      and "logs_only no_rename_failure w w'"
  | (refused) c e w' where
      "find (\<lambda>exe_name. path_exists h (joinpath (game_path self) exe_name) w)
         (possible_executables h) = Some c"
      and "fst (rename_attempt h self c
                  (logged INFO ''Renaming NW.js executable to {}...''
                     [AStr (executable_name self)] w)) = Inl e"
      and "rename_executable h self w = (Inr (Some (joinpath (game_path self) c)), w')"
      and "new_records w w' = [Msg INFO ''Renaming NW.js executable to {}...''
                                 [AStr (executable_name self)], rename_failed_record e]"
proof -
  let ?w0 = "logged INFO ''Renaming NW.js executable to {}...'' [AStr (executable_name self)] w"
  show ?thesis
  proof (cases "find (\<lambda>exe_name. path_exists h (joinpath (game_path self) exe_name) w)
                  (possible_executables h)")
    case None
    then have "rename_executable h self w
                 = (Inr None, logged ERROR ''NW.js executable not found. Looked for: {}''
                                [AStrs (possible_executables h)] ?w0)"
      by (simp add: rename_executable_def ok_def)
    then show ?thesis
      by (rule missing) (simp add: logs_only_def no_rename_failure_def)
  next
    case (Some c)
    obtain r w1 where b: "rename_attempt h self c ?w0 = (r, w1)"
      by (cases "rename_attempt h self c ?w0")
    with rename_attempt_quiet [of h self c ?w0] have lg: "log w1 = log ?w0" by simp
    show ?thesis
    proof (cases r)
      case (Inr u)
      with b have "rename_executable h self w
          = (Inr (Some (game_exe_path h self)), logged INFO ''Renamed {} to {}''
               [AStr (path_name (joinpath (game_path self) c)),
                AStr (path_name (game_exe_path h self))] w1)"
        by (simp add: rename_executable_found [OF Some])
      then show ?thesis
        by (rule renamed) (simp add: logs_only_def lg no_rename_failure_def)
    next
      case (Inl e)
      with b have run: "rename_executable h self w
          = (Inr (Some (joinpath (game_path self) c)),
             logged ERROR ''Could not rename executable: {}'' [AExn e] w1)"
        by (simp add: rename_executable_found [OF Some])
      from b Inl have "fst (rename_attempt h self c ?w0) = Inl e" by simp
      with Some show ?thesis using run
        by (rule refused) (simp add: new_records_def lg rename_failed_record_def)
    qed
  qed
qed

lemma process_game_refused_or_quiet:
  "(\<exists>c\<in>set (possible_executables h).
       fst (process_game h self b w) = Success (joinpath (game_path self) c) (game_path self))
   \<or> logs_only no_rename_failure w (snd (process_game h self b w))"
proof -
  let ?w0 = "logged INFO ''Starting NW.js update for: {}'' [APath (game_path self)] w"
  have s0: "logs_only no_rename_failure w ?w0"
    by (rule logs_only_logged) (simp add: no_rename_failure_def)
  have fin: "logs_only no_rename_failure w (snd (process_game h self b w))"
    if "pipeline h self b ?w0 = (r, w')" and "logs_only no_rename_failure ?w0 w'" for r w'
  proof (cases r)
    case (Inl e)
    have "logs_only no_rename_failure w' (logged ERROR ''Update failed: {}'' [AExn e] w')"
      by (rule logs_only_logged) (simp add: no_rename_failure_def)
    with that Inl s0 show ?thesis
      by (auto simp: process_game_def intro: logs_only_trans)
  next
    case (Inr exe)
    with that s0 show ?thesis
      by (auto simp: process_game_def intro: logs_only_trans)
  qed
  obtain r1 w1 where b1: "steps_before_finalizer h self b ?w0 = (r1, w1)"
    by (cases "steps_before_finalizer h self b ?w0")
  from preservesD [OF steps_before_finalizer_logs b1]
  have l1: "logs_only no_rename_failure ?w0 w1" .
  show ?thesis
  proof (cases r1)
    case (Inl e)
    with b1 have "pipeline h self b ?w0 = (Inl e, w1)"
      by (simp add: pipeline_split_finalizer andthen_def)
    from fin [OF this l1] show ?thesis ..
  next
    case (Inr u)
    have quiet: ?thesis
      if "rename_executable h self w1 = (Inr g, w2)" and "logs_only no_rename_failure w1 w2"
      for g w2
    proof -
      obtain r3 w3 where a: "steps_after_rename h self g w2 = (r3, w3)"
        by (cases "steps_after_rename h self g w2")
      from preservesD [OF steps_after_rename_logs a]
      have "logs_only no_rename_failure w2 w3" .
      with l1 that(2) have "logs_only no_rename_failure ?w0 w3"
        by (blast intro: logs_only_trans)
      moreover from b1 Inr that(1) a have "pipeline h self b ?w0 = (r3, w3)"
        by (simp add: pipeline_split_finalizer andthen_def)
      ultimately show ?thesis using fin by blast
    qed
    show ?thesis
    proof (cases h self w1 rule: rename_executable_outcome)
      case (missing w2)
      then show ?thesis by (rule quiet)
    next
      case (renamed w2)
      then show ?thesis by (rule quiet)
    next
      case (refused c e w2)
      let ?exe = "joinpath (game_path self) c"
      obtain r3 w3 where a: "steps_after_rename h self (Some ?exe) w2 = (r3, w3)"
        by (cases "steps_after_rename h self (Some ?exe) w2")
      with steps_after_rename_returns [of h self ?exe w2] have "r3 = Inr ?exe" by simp
      with b1 Inr refused(3) a have "pipeline h self b ?w0 = (Inr ?exe, w3)"
        by (simp add: pipeline_split_finalizer andthen_def)
      then have "fst (process_game h self b w) = Success ?exe (game_path self)"
        by (simp add: process_game_def)
      moreover from refused(1) have "c \<in> set (possible_executables h)"
        by (simp add: find_SomeD)
      ultimately show ?thesis by blast
    qed
  qed
qed

lemma rename_failed_record_loud: "\<not> no_rename_failure (rename_failed_record e)"
  by (simp add: no_rename_failure_def rename_failed_record_def)

text \<open>
  The handler of \<open>rename_executable\<close> in general. When a candidate is found and the
  removal of an old destination, the rename or the change of mode raises,
  \<open>rename_executable\<close> logs the failure and returns the path of the candidate, not an
  error and not \<open>None\<close>; and a run of \<open>process_game\<close> in which this failure was logged
  reports success with the path of a candidate name.
\<close>

lemma refused_rename_reported_as_success:
  "rename_failed_record e \<in> set (new_records w (snd (process_game h self b w))) \<Longrightarrow>
     \<exists>c\<in>set (possible_executables h).
        fst (process_game h self b w) = Success (joinpath (game_path self) c) (game_path self)"
proof -
  assume "rename_failed_record e \<in> set (new_records w (snd (process_game h self b w)))"
  with logs_only_new_records [of no_rename_failure w "snd (process_game h self b w)"
         "rename_failed_record e"]
  have "\<not> logs_only no_rename_failure w (snd (process_game h self b w))"
    by (auto simp: rename_failed_record_loud)
  with process_game_refused_or_quiet [of h self b w] show ?thesis by blast
qed

text \<open>
  Claim C9. The path that the handler returns is the path of the candidate as it was
  found, whatever the \<open>try\<close> has done to the file before it raised. On Linux with the
  executable name \<open>nw\<close> the destination is the candidate \<open>nw\<close> itself: the \<open>try\<close> first
  unlinks the destination, that is, the binary it was about to rename, the rename
  then raises \<open>FileNotFoundError\<close>, and the run of \<open>process_game\<close> reports success with
  the path \<open>My Game/nw\<close>: a path that bears the name the user chose and at which no file
  is left. The same happens in \<open>rename_executable\<close> alone on a directory that holds
  both binaries.
\<close>

theorem rename_onto_candidate_loses_executable:
  "(case process_game demo_host nw_named_self False ready_world of
      (r, w') \<Rightarrow>
        r = Success (Path False [''My Game'', ''nw'']) (Path False [''My Game''])
        \<and> rename_failed_record (FileNotFoundError ''rename'') \<in> set (new_records ready_world w')
        \<and> \<not> path_exists demo_host (Path False [''My Game'', ''nw'']) w')
   \<and> path_name (Path False [''My Game'', ''nw'']) = executable_name nw_named_self
   \<and> game_exe_path demo_host nw_named_self = Path False [''My Game'', ''nw'']
   \<and> find (\<lambda>exe_name. path_exists demo_host (joinpath (game_path nw_named_self) exe_name)
              installed_world) (possible_executables demo_host) = Some ''nw''
   \<and> lookup (fs installed_world) [''home'', ''u'', ''My Game'', ''nw''] = Some (File ''NW'')
   \<and> (case rename_executable demo_host nw_named_self installed_world of
         (r, w') \<Rightarrow>
           r = Inr (Some (Path False [''My Game'', ''nw'']))
           \<and> lookup (fs w') [''home'', ''u'', ''My Game'', ''nw''] = None
           \<and> new_records installed_world w'
               = [Msg INFO ''Renaming NW.js executable to {}...'' [AStr ''nw''],
                  rename_failed_record (FileNotFoundError ''rename'')])"
  by code_simp

text \<open>
  A refused change of mode takes the same way through the handler after the rename has
  been done: the path returned is the path the binary has just left.
\<close>

lemma refused_chmod_returns_old_path:
  "(case rename_executable fixed_mode_host demo_self installed_world of
      (r, w') \<Rightarrow>
        r = Inr (Some (Path False [''My Game'', ''nw'']))
        \<and> lookup (fs w') [''home'', ''u'', ''My Game'', ''nw''] = None
        \<and> lookup (fs w') [''home'', ''u'', ''My Game'', ''Game''] = Some (File ''NW'')
        \<and> new_records installed_world w'
            = [Msg INFO ''Renaming NW.js executable to {}...'' [AStr ''Game''],
               rename_failed_record (PermissionError ''chmod'')])"
  by code_simp

subsection \<open>Where the steps write\<close>





























lemma below_text_append: "below_text windows s \<Longrightarrow> s \<noteq> [] \<Longrightarrow> below_text windows (s @ t)"
  by (simp add: below_text_def)









































end
